theory Spec2Isabelle
  imports Complex_Main "HOL-Library.Multiset" "HOL-Library.Sublist"
begin

section \<open>JavaScript strings\<close>

text \<open>
  A JavaScript string is modelled as a \<open>string\<close>: one \<open>char\<close> per code unit, for
  text whose code units lie in Latin-1 (0 to 255).  URLs serialised by the platform's URL
  class and HTTP header values are of this kind.
\<close>

definition startsWith :: "string \<Rightarrow> string \<Rightarrow> bool" where
  "startsWith s p = (take (length p) s = p)"

definition endsWith :: "string \<Rightarrow> string \<Rightarrow> bool" where
  "endsWith s p = (length p \<le> length s \<and> drop (length s - length p) s = p)"

text \<open>\<open>s.includes(p)\<close>: \<open>p\<close> occurs in \<open>s\<close> as a contiguous substring.\<close>

fun str_includes :: "string \<Rightarrow> string \<Rightarrow> bool" where
  "str_includes [] p = (p = [])"
| "str_includes (c # s) p = (startsWith (c # s) p \<or> str_includes s p)"

text \<open>\<open>toLowerCase\<close> on Latin-1 code units: A-Z, and the accented capitals 192-222 but 215.\<close>

definition lower_char :: "char \<Rightarrow> char" where
  "lower_char c =
     (case map_of (zip ''ABCDEFGHIJKLMNOPQRSTUVWXYZ'' ''abcdefghijklmnopqrstuvwxyz'') c of
        Some d \<Rightarrow> d
      | None \<Rightarrow>
          (let n = (of_char c :: nat)
           in if 192 \<le> n \<and> n \<le> 222 \<and> n \<noteq> 215 then char_of (n + 32) else c))"

definition toLowerCase :: "string \<Rightarrow> string" where
  "toLowerCase s = map lower_char s"

text \<open>White space and line terminators of ECMAScript within Latin-1 (the class \<open>\s\<close>).\<close>

definition is_space :: "char \<Rightarrow> bool" where
  "is_space c = ((of_char c :: nat) \<in> {9, 10, 11, 12, 13, 32, 160})"

definition trim :: "string \<Rightarrow> string" where
  "trim s = rev (dropWhile is_space (rev (dropWhile is_space s)))"

text \<open>\<open>s.replace(/\/$/, '')\<close> and \<open>s.replace(/^\//, '')\<close>.\<close>

definition strip_trailing_slash :: "string \<Rightarrow> string" where
  "strip_trailing_slash s = (if endsWith s ''/'' then butlast s else s)"

definition strip_leading_slash :: "string \<Rightarrow> string" where
  "strip_leading_slash s = (if startsWith s ''/'' then tl s else s)"

text \<open>
  \<open>s.replace(re, r)\<close> for a regular expression without the \<open>g\<close> flag whose matches are
  the literal strings \<open>pats\<close> (tried in this order at each position), and for a string
  pattern: only the leftmost match is replaced.
\<close>

fun match_at :: "string list \<Rightarrow> string \<Rightarrow> string option" where
  "match_at [] s = None"
| "match_at (p # ps) s = (if startsWith s p then Some p else match_at ps s)"

fun replace_first :: "string list \<Rightarrow> string \<Rightarrow> string \<Rightarrow> string" where
  "replace_first pats r [] = []"
| "replace_first pats r (c # s) =
     (case match_at pats (c # s) of
        Some p \<Rightarrow> r @ drop (length p) (c # s)
      | None \<Rightarrow> c # replace_first pats r s)"

section \<open>Data model\<close>

text \<open>A parsed URL, as the platform's \<open>URL\<close> class exposes it.\<close>

record url =
  hostname :: string
  pathname :: string
  href :: string

text \<open>
  \<open>response.data\<close> of the HTTP client: a string, or (when the client parsed a JSON body)
  a value that is not a string, of which the code only observes its truthiness and its
  \<open>toString()\<close>.
\<close>

datatype payload = Str string | NonStr bool string

fun truthy :: "payload \<Rightarrow> bool" where
  "truthy (Str s) = (s \<noteq> [])"
| "truthy (NonStr t s) = t"

fun payload_toString :: "payload \<Rightarrow> string" where
  "payload_toString (Str s) = s"
| "payload_toString (NonStr t s) = s"

record response =
  status :: int
  content_type :: "string option"
  data :: payload

text \<open>One entry of the site configuration file, with the keys the README documents.\<close>

record site_config =
  contentSelector :: "string option"
  skipPatterns :: "string list"
  site_maxDepth :: "int option"
  preferMarkdown :: bool

definition default_config :: site_config where
  "default_config =
     \<lparr>contentSelector = None, skipPatterns = [], site_maxDepth = None, preferMarkdown = False\<rparr>"

text \<open>
  A JavaScript number that is not \<open>NaN\<close>: a finite value, which is a rational number,
  or one of the two infinities.  The depth of a frontier entry is an integer (0 for the
  seed, one more for each hop); \<open>number_gt d m\<close> is the comparison \<open>d > m\<close> and
  \<open>number_lt d m\<close> the comparison \<open>d < m\<close> of the source, for a depth \<open>d\<close> and a
  number \<open>m\<close>.
\<close>

datatype js_number = NegInfinity | Finite rat | Infinity

fun number_gt :: "int \<Rightarrow> js_number \<Rightarrow> bool" where
  "number_gt d NegInfinity = True"
| "number_gt d (Finite q) = (of_int d > q)"
| "number_gt d Infinity = False"

fun number_lt :: "int \<Rightarrow> js_number \<Rightarrow> bool" where
  "number_lt d NegInfinity = False"
| "number_lt d (Finite q) = (of_int d < q)"
| "number_lt d Infinity = True"

text \<open>The fields of a \<open>DocDownloader\<close> that do not change during a run.\<close>

record downloader =
  maxDepth :: js_number
  outputDir :: string
  force :: bool
  includeMetadata :: bool
  siteConfig :: "string \<rightharpoonup> site_config"

text \<open>
  The constructor's options; \<open>None\<close> is an absent key, and for \<open>opt_maxDepth\<close> (a
  number when present) also the \<open>NaN\<close> that \<open>parseInt\<close> gives the command line on a depth
  that is no number.  \<open>options.maxDepth || 3\<close> replaces an absent key, \<open>NaN\<close> and zero by
  3 and keeps every other number, the infinities too.  The configuration is taken as
  loaded.
\<close>

record options =
  opt_maxDepth :: "js_number option"
  opt_outputDir :: "string option"
  opt_force :: bool
  opt_includeMetadata :: bool

definition new_DocDownloader :: "options \<Rightarrow> (string \<rightharpoonup> site_config) \<Rightarrow> downloader" where
  "new_DocDownloader opts cfg =
     \<lparr>maxDepth = (case opt_maxDepth opts of
                    None \<Rightarrow> Finite 3
                  | Some n \<Rightarrow> if n = Finite 0 then Finite 3 else n),
      outputDir = (case opt_outputDir opts of None \<Rightarrow> ''./downloads''
                   | Some d \<Rightarrow> if d = [] then ''./downloads'' else d),
      force = opt_force opts,
      includeMetadata = opt_includeMetadata opts,
      siteConfig = cfg\<rparr>"

definition config_for :: "downloader \<Rightarrow> string \<Rightarrow> site_config" where
  "config_for dl h = (case siteConfig dl h of None \<Rightarrow> default_config | Some c \<Rightarrow> c)"

section \<open>The platform\<close>

text \<open>
  What the program calls and does not define: the URL class, the path module, the HTTP
  client, the HTML parser, the markdown converter, the clock and the file system (whose
  state has the type \<open>'fs\<close>).  Each is a parameter, so every theorem holds whatever the
  network answers and whatever the disk holds.  \<open>None\<close> is a call that throws (the URL
  class on a string that is no URL, the HTTP client on a network failure or on a status
  that its \<open>validateStatus\<close> refuses, the file system on a failed operation).
  \<open>page_get u k\<close> is the answer to the \<open>k\<close>-th attempt of \<open>fetchPage\<close> on \<open>u\<close>;
  \<open>cheerio_load d\<close> is the error that \<open>cheerio.load\<close> throws on \<open>d\<close>, if any (it throws
  on bodies that are no strings, such as an array of numbers);
  \<open>anchors d\<close> lists the \<open>href\<close> attributes of the elements \<open>a[href]\<close> of the parsed
  document in document order; \<open>dom_extract\<close> is the selector chain and cleanup of
  \<open>extractContent\<close> below its \<open>preferMarkdown\<close> test, a function of the document, the
  site's configuration, the hostname and the URL; \<open>iso_now n\<close> is the clock's reading
  after \<open>n\<close> recorded effects.
\<close>

datatype js_error = TypeError | RangeError | HttpError | IoError

record 'fs platform =
  url_parse :: "string \<Rightarrow> url option"
  url_resolve :: "string \<Rightarrow> string \<Rightarrow> url option"
  path_join :: "string \<Rightarrow> string \<Rightarrow> string"
  path_dirname :: "string \<Rightarrow> string"
  page_get :: "string \<Rightarrow> nat \<Rightarrow> response option"
  head_req :: "string \<Rightarrow> response option"
  range_get :: "string \<Rightarrow> response option"
  md_get :: "string \<Rightarrow> response option"
  cheerio_load :: "payload \<Rightarrow> js_error option"
  anchors :: "payload \<Rightarrow> string list"
  dom_extract :: "payload \<Rightarrow> site_config \<Rightarrow> string \<Rightarrow> string \<Rightarrow> string"
  turndown :: "string \<Rightarrow> string"
  iso_now :: "nat \<Rightarrow> string"
  fs_pathExists :: "'fs \<Rightarrow> string \<Rightarrow> bool"
  fs_ensureDir :: "'fs \<Rightarrow> string \<Rightarrow> 'fs option"
  fs_writeFile :: "'fs \<Rightarrow> string \<Rightarrow> string \<Rightarrow> 'fs option"

section \<open>Paths on disk\<close>

text \<open>\<open>getSiteName\<close>: \<open>hostname.replace(/^www\./, '').replace(/\./g, '_')\<close>.\<close>

definition getSiteName :: "string \<Rightarrow> string" where
  "getSiteName h =
     map (\<lambda>c. if c = CHR ''.'' then CHR ''_'' else c)
       (if startsWith h ''www.'' then drop 4 h else h)"

text \<open>
  \<open>getFilePath\<close>, from the \<open>pathname\<close> of the parsed URL to \<open>safePath\<close> (the source's local
  variable), and then the whole function.  The \<open>baseUrl\<close> argument is not read.
\<close>

definition unsafe_chars :: "char set" where
  "unsafe_chars = set ''<>:\"|?*''"

definition safePath :: "string \<Rightarrow> string" where
  "safePath pathname0 =
     (let pathname1 = (if pathname0 = ''/'' \<or> pathname0 = [] then ''/index'' else pathname0);
          pathname2 = strip_trailing_slash pathname1;
          pathname3 = (if endsWith pathname2 ''.md'' then pathname2 else pathname2 @ ''.md'')
      in map (\<lambda>c. if c \<in> unsafe_chars then CHR ''_'' else c) (strip_leading_slash pathname3))"

definition getFilePath :: "'fs platform \<Rightarrow> string \<Rightarrow> url \<Rightarrow> string \<Rightarrow> js_error + string" where
  "getFilePath env u baseUrl siteDir =
     (case url_parse env u of
        None \<Rightarrow> Inl TypeError
      | Some urlObj \<Rightarrow> Inr (path_join env siteDir (safePath (pathname urlObj))))"

text \<open>
  The path derivation in the words of the specification (section 4.6), on the path
  component of the URL: an empty or \<open>/\<close> path becomes \<open>/index\<close>, a trailing slash is
  stripped, \<open>.md\<close> is appended when absent, the leading slash is stripped, and each of the
  characters \<open><>:"|?*\<close> is replaced by an underscore.
\<close>

definition derivePath_spec :: "string \<Rightarrow> string" where
  "derivePath_spec p =
     (let p1 = (if p = [] \<or> p = ''/'' then ''/index'' else p);
          p2 = (if p1 \<noteq> [] \<and> last p1 = CHR ''/'' then butlast p1 else p1);
          p3 = (if suffix ''.md'' p2 then p2 else p2 @ ''.md'');
          p4 = (if p3 \<noteq> [] \<and> hd p3 = CHR ''/'' then tl p3 else p3)
      in map (\<lambda>c. if c \<in> {CHR ''<'', CHR ''>'', CHR '':'', CHR 0x22, CHR ''|'', CHR ''?'', CHR ''*''}
                  then CHR ''_'' else c) p4)"

section \<open>Skipped links\<close>

text \<open>
  \<open>shouldSkipUrl\<close>: the nine patterns of the source, in its order.  The first is
  \<open>/\.(pdf|jpg|jpeg|png|gif|svg|ico|css|js)$/i\<close>; the others match anywhere in the URL.
  Neither the downloader's state nor the site configuration is read.
\<close>

definition skip_extensions :: "string list" where
  "skip_extensions = [''pdf'', ''jpg'', ''jpeg'', ''png'', ''gif'', ''svg'', ''ico'', ''css'', ''js'']"

definition skip_substrings :: "string list" where
  "skip_substrings =
     [''#'', ''/api/'', ''/login'', ''/register'', ''/admin'', ''/search'', ''mailto:'', ''tel:'']"

definition shouldSkipUrl :: "string \<Rightarrow> bool" where
  "shouldSkipUrl u =
     (list_ex (\<lambda>e. endsWith (toLowerCase u) (CHR ''.'' # e)) skip_extensions
      \<or> list_ex (\<lambda>p. str_includes u p) skip_substrings)"

section \<open>The markdown probe\<close>

text \<open>
  The candidate URLs of \<open>checkForMarkdownVersion\<close>, in the source's order.  The regular
  expression \<open>/\.html?$/\<close> matches a final \<open>.html\<close> or \<open>.htm\<close>; \<open>/\/docs?\//\<close> matches
  \<open>/docs/\<close> or \<open>/doc/\<close> and \<open>/\/guide?\//\<close> matches \<open>/guide/\<close> or \<open>/guid/\<close>.
\<close>

definition replace_html_suffix :: "string \<Rightarrow> string" where
  "replace_html_suffix u =
     (if endsWith u ''.html'' then take (length u - 5) u @ ''.md''
      else if endsWith u ''.htm'' then take (length u - 4) u @ ''.md''
      else u)"

definition possibleMdUrls :: "string \<Rightarrow> string list" where
  "possibleMdUrls u =
     (let baseUrl = strip_trailing_slash u
      in [baseUrl @ ''.md'',
          baseUrl @ ''/index.md'',
          baseUrl @ ''/README.md'',
          baseUrl @ ''/content.md'',
          replace_html_suffix u,
          u @ ''.md'',
          u @ ''/index.md'',
          replace_first [''/blob/''] ''/''
            (replace_first [''github.com''] ''raw.githubusercontent.com'' u),
          replace_first [''/blob/''] ''/raw/'' u,
          replace_first [''/docs/'', ''/doc/''] ''/docs/'' baseUrl @ ''.md'',
          replace_first [''/guide/'', ''/guid/''] ''/guide/'' baseUrl @ ''.md''])"

text \<open>
  \<open>isLikelyMarkdown\<close>.  The helpers read the source's regular expressions: \<open>anywhere k\<close>
  holds when \<open>k\<close> holds of some suffix of the string (an unanchored pattern), and
  \<open>dots_then k\<close> when \<open>k\<close> holds after some run of characters that are no line terminators
  (the pattern \<open>.*?\<close> followed by \<open>k\<close>).
\<close>

definition LF :: char where
  "LF = CHR 0x0A"

definition CR :: char where
  "CR = CHR 0x0D"

definition is_line_terminator :: "char \<Rightarrow> bool" where
  "is_line_terminator c = (c = LF \<or> c = CR)"

definition is_digit :: "char \<Rightarrow> bool" where
  "is_digit c = (c \<in> set ''0123456789'')"

definition is_ascii_letter :: "char \<Rightarrow> bool" where
  "is_ascii_letter c =
     (c \<in> set ''abcdefghijklmnopqrstuvwxyzABCDEFGHIJKLMNOPQRSTUVWXYZ'')"

fun anywhere :: "(string \<Rightarrow> bool) \<Rightarrow> string \<Rightarrow> bool" where
  "anywhere k [] = k []"
| "anywhere k (c # s) = (k (c # s) \<or> anywhere k s)"

fun dots_then :: "(string \<Rightarrow> bool) \<Rightarrow> string \<Rightarrow> bool" where
  "dots_then k [] = k []"
| "dots_then k (c # s) = (k (c # s) \<or> (\<not> is_line_terminator c \<and> dots_then k s))"

text \<open>The lines of a string, as the \<open>m\<close> flag delimits them.\<close>

fun split_lines :: "string \<Rightarrow> string list" where
  "split_lines [] = [[]]"
| "split_lines (c # s) =
     (if is_line_terminator c then [] # split_lines s
      else (case split_lines s of l # ls \<Rightarrow> (c # l) # ls | [] \<Rightarrow> [[c]]))"

text \<open>A first character \<open>a\<close> followed by white space: \<open>/^\*\s+/\<close> and \<open>/^\>\s+/\<close>.\<close>

definition char_then_space :: "char \<Rightarrow> string \<Rightarrow> bool" where
  "char_then_space a s = (case s of c # d # r \<Rightarrow> c = a \<and> is_space d | _ \<Rightarrow> False)"

definition next_is_space :: "string \<Rightarrow> bool" where
  "next_is_space s = (case s of c # r \<Rightarrow> is_space c | [] \<Rightarrow> False)"

definition md_header :: "string \<Rightarrow> bool" where
  "md_header s =
     (let n = length (takeWhile (\<lambda>c. c = CHR ''#'') s)
      in 1 \<le> n \<and> n \<le> 6 \<and> next_is_space (drop n s))"

definition md_numbered :: "string \<Rightarrow> bool" where
  "md_numbered s =
     (let n = length (takeWhile is_digit s)
      in 1 \<le> n \<and> char_then_space (CHR ''.'') (drop n s))"

definition md_link :: "string \<Rightarrow> bool" where
  "md_link s =
     anywhere (\<lambda>t. startsWith t ''['' \<and>
        dots_then (\<lambda>v. startsWith v ''](''
           \<and> dots_then (\<lambda>x. startsWith x '')'') (drop 2 v)) (drop 1 t)) s"

definition md_inline_code :: "string \<Rightarrow> bool" where
  "md_inline_code s =
     anywhere (\<lambda>t. startsWith t ''`'' \<and>
        (let m = takeWhile (\<lambda>c. c \<noteq> CHR ''`'') (drop 1 t)
         in m \<noteq> [] \<and> drop (length m) (drop 1 t) \<noteq> [])) s"

definition md_bold :: "string \<Rightarrow> bool" where
  "md_bold s =
     anywhere (\<lambda>t. startsWith t ''**'' \<and> dots_then (\<lambda>v. startsWith v ''**'') (drop 2 t)) s"

definition md_italic :: "string \<Rightarrow> bool" where
  "md_italic s =
     anywhere (\<lambda>t. startsWith t ''*'' \<and> dots_then (\<lambda>v. startsWith v ''*'') (drop 1 t)) s"

definition md_rule :: "string \<Rightarrow> bool" where
  "md_rule s = list_ex (\<lambda>l. l = ''---'' \<or> l = ''==='') (split_lines s)"

definition md_table :: "string \<Rightarrow> bool" where
  "md_table s =
     list_ex (\<lambda>l. startsWith l ''|'' \<and> CHR ''|'' \<in> set (drop 1 l)) (split_lines s)"

text \<open>\<open>/<\/?[a-z][\s\S]*>/i\<close>.\<close>

definition hasHtmlTags :: "string \<Rightarrow> bool" where
  "hasHtmlTags s =
     anywhere (\<lambda>t. startsWith t ''<'' \<and>
        (let r = (if startsWith (drop 1 t) ''/'' then drop 2 t else drop 1 t)
         in case r of c # v \<Rightarrow> is_ascii_letter c \<and> CHR ''>'' \<in> set v | [] \<Rightarrow> False)) s"

definition hasMarkdownPatterns :: "string \<Rightarrow> bool" where
  "hasMarkdownPatterns s =
     (md_header s \<or> char_then_space (CHR ''*'') s \<or> md_numbered s \<or> md_link s
      \<or> md_inline_code s \<or> str_includes s ''```'' \<or> char_then_space (CHR ''>'') s
      \<or> md_bold s \<or> md_italic s \<or> md_rule s \<or> md_table s)"

definition isLikelyMarkdown :: "string \<Rightarrow> bool" where
  "isLikelyMarkdown content =
     (if content = [] \<or> length content < 10 then False
      else hasMarkdownPatterns content
           \<or> (\<not> hasHtmlTags content \<and> LF \<in> set content \<and> length content > 50))"

text \<open>
  \<open>response.headers['content-type']?.toLowerCase() || ''\<close>, and the two tests for an
  HTML document at the start of a body.
\<close>

definition contentType_of :: "response \<Rightarrow> string" where
  "contentType_of r = (case content_type r of None \<Rightarrow> [] | Some t \<Rightarrow> toLowerCase t)"

definition starts_as_html :: "string \<Rightarrow> bool" where
  "starts_as_html content =
     (startsWith content ''<!DOCTYPE html'' \<or> startsWith content ''<html'')"

text \<open>
  The body of the probe's loop once a response is there (the source's lines 179 to 208):
  whether the candidate \<open>mdUrl\<close> is returned.  The first branch is taken when
  \<open>response.data\<close> is truthy, the second when it is not (a \<open>HEAD\<close> response, or an empty
  body).
\<close>

definition accepts_with_body :: "response \<Rightarrow> bool" where
  "accepts_with_body r =
     (let contentType = contentType_of r;
          content = trim (payload_toString (data r));
          isMarkdown = isLikelyMarkdown content;
          isHtml = (starts_as_html content \<or> str_includes contentType ''text/html'')
      in isMarkdown \<and> \<not> isHtml)"

definition accepts_headers_only :: "string \<Rightarrow> response \<Rightarrow> bool" where
  "accepts_headers_only mdUrl r =
     (let contentType = contentType_of r;
          isLikelyMarkdown = (str_includes contentType ''text/plain''
                              \<or> str_includes contentType ''markdown''
                              \<or> str_includes contentType ''text/markdown''
                              \<or> str_includes contentType ''application/octet-stream''
                              \<or> contentType = []
                              \<or> endsWith mdUrl ''.md'');
          isHtml = str_includes contentType ''text/html''
      in isLikelyMarkdown \<and> \<not> isHtml)"

definition accepts_candidate :: "string \<Rightarrow> response \<Rightarrow> bool" where
  "accepts_candidate mdUrl r =
     (if status r = 200 \<or> status r = 206
      then (if truthy (data r) then accepts_with_body r else accepts_headers_only mdUrl r)
      else False)"

text \<open>
  The rule for a response without a body in the words of the specification (section 4.2,
  case b): the status is 200 or 206, the content type is blank, \<open>text/plain\<close>, a markdown
  type or \<open>application/octet-stream\<close>, and it is not \<open>text/html\<close>.
\<close>

definition head_rule_spec :: "response \<Rightarrow> bool" where
  "head_rule_spec r =
     ((status r = 200 \<or> status r = 206)
      \<and> (contentType_of r = []
           \<or> str_includes (contentType_of r) ''text/plain''
           \<or> str_includes (contentType_of r) ''markdown''
           \<or> str_includes (contentType_of r) ''application/octet-stream'')
      \<and> \<not> str_includes (contentType_of r) ''text/html'')"

section \<open>State and effects\<close>

text \<open>
  The state a run changes: the visited set, the frontier, the file system, and a trace of
  the effects so far in the order the program performs them (marking a URL visited,
  sleeping, HTTP requests, console lines).
\<close>

datatype request = HEAD | GET_RANGE | GET_MD | GET_PAGE nat

datatype console =
    OutputDirectory string
  | Processing string int
  | FoundMarkdown string
  | NoMarkdownSkipping
  | Converting
  | ReturnedHtml string
  | SkippingExisting string
  | Saved string
  | WarnAttemptFailed nat string
  | WarnFetchFailed string nat
  | WarnProcessFailed string
  | WarnMarkdownFailed string

datatype event = MarkVisited string | Delay nat | Http request string | Console console

record 'fs world =
  visited :: "string set"
  queue :: "(string \<times> int) list"
  fsys :: 'fs
  trace :: "event list"

definition emit :: "event list \<Rightarrow> 'fs world \<Rightarrow> 'fs world" where
  "emit es w = w\<lparr>trace := trace w @ es\<rparr>"

subsection \<open>fetchPage\<close>

definition maxRetries :: nat where
  "maxRetries = 3"

definition retryDelay :: nat where
  "retryDelay = 1000"

text \<open>The \<open>for\<close> loop of \<open>fetchPage\<close> from the iteration \<open>attempt\<close> on.\<close>

function fetchPage_from :: "'fs platform \<Rightarrow> string \<Rightarrow> nat \<Rightarrow> 'fs world \<Rightarrow> response option \<times> 'fs world" where
  "fetchPage_from env u attempt w =
     (if attempt \<le> maxRetries
      then (let w1 = emit [Http (GET_PAGE attempt) u] w
            in case page_get env u attempt of
                 Some response \<Rightarrow> (Some response, w1)
               | None \<Rightarrow>
                   if attempt = maxRetries
                   then (None, emit [Console (WarnFetchFailed u maxRetries)] w1)
                   else fetchPage_from env u (attempt + 1)
                          (emit [Console (WarnAttemptFailed attempt u),
                                 Delay (retryDelay * attempt)] w1))
      else (None, w))"
  by pat_completeness auto
termination
  by (relation "measure (\<lambda>(env, u, attempt, w). maxRetries + 1 - attempt)") auto

definition fetchPage :: "'fs platform \<Rightarrow> string \<Rightarrow> 'fs world \<Rightarrow> response option \<times> 'fs world" where
  "fetchPage env u w = fetchPage_from env u 1 w"

subsection \<open>findAndQueueLinks\<close>

text \<open>
  \<open>links\<close> is a JavaScript \<open>Set\<close>: it keeps the order of first insertion.  An \<open>href\<close> that
  is empty is passed over, one that the URL class refuses is caught and passed over.
\<close>

definition set_add :: "string list \<Rightarrow> string \<Rightarrow> string list" where
  "set_add xs x = (if x \<in> set xs then xs else xs @ [x])"

fun collect_links :: "'fs platform \<Rightarrow> string \<Rightarrow> url \<Rightarrow> string list \<Rightarrow> string list \<Rightarrow> string list" where
  "collect_links env currentUrl baseUrl links [] = links"
| "collect_links env currentUrl baseUrl links (h # hs) =
     collect_links env currentUrl baseUrl
       (if h = [] then links
        else (case url_resolve env h currentUrl of
                None \<Rightarrow> links
              | Some linkUrl \<Rightarrow>
                  if hostname linkUrl \<noteq> hostname baseUrl then links
                  else if shouldSkipUrl (href linkUrl) then links
                  else set_add links (href linkUrl)))
       hs"

definition findAndQueueLinks :: "'fs platform \<Rightarrow> payload \<Rightarrow> string \<Rightarrow> url \<Rightarrow> int \<Rightarrow> 'fs world \<Rightarrow> 'fs world" where
  "findAndQueueLinks env doc currentUrl baseUrl currentDepth w =
     (let links = collect_links env currentUrl baseUrl [] (anchors env doc)
      in w\<lparr>queue := queue w @
              map (\<lambda>link. (link, currentDepth + 1)) (filter (\<lambda>link. link \<notin> visited w) links)\<rparr>)"

subsection \<open>checkForMarkdownVersion\<close>

text \<open>
  The loop over the candidates: \<open>HEAD\<close> first, a ranged \<open>GET\<close> when \<open>HEAD\<close> throws, the next
  candidate when that throws too or when the response is not accepted.
\<close>

fun probe_candidates :: "'fs platform \<Rightarrow> string list \<Rightarrow> 'fs world \<Rightarrow> string option \<times> 'fs world" where
  "probe_candidates env [] w = (None, w)"
| "probe_candidates env (mdUrl # rest) w =
     (let w1 = emit [Http HEAD mdUrl] w
      in case head_req env mdUrl of
           Some response \<Rightarrow>
             if accepts_candidate mdUrl response then (Some mdUrl, w1)
             else probe_candidates env rest w1
         | None \<Rightarrow>
             (let w2 = emit [Http GET_RANGE mdUrl] w1
              in case range_get env mdUrl of
                   Some response \<Rightarrow>
                     if accepts_candidate mdUrl response then (Some mdUrl, w2)
                     else probe_candidates env rest w2
                 | None \<Rightarrow> probe_candidates env rest w2))"

definition checkForMarkdownVersion :: "'fs platform \<Rightarrow> string \<Rightarrow> 'fs world \<Rightarrow> (js_error + string option) \<times> 'fs world" where
  "checkForMarkdownVersion env u w =
     (case url_parse env u of
        None \<Rightarrow> (Inl TypeError, w)
      | Some urlObj \<Rightarrow>
          (case probe_candidates env (possibleMdUrls u) w of (found, w1) \<Rightarrow> (Inr found, w1)))"

subsection \<open>extractContent and saveMarkdown\<close>

definition extractContent :: "'fs platform \<Rightarrow> downloader \<Rightarrow> payload \<Rightarrow> string \<Rightarrow> js_error + string" where
  "extractContent env dl doc u =
     (case url_parse env u of
        None \<Rightarrow> Inl TypeError
      | Some urlObj \<Rightarrow>
          (let config = config_for dl (hostname urlObj)
           in if preferMarkdown config then Inr []
              else Inr (dom_extract env doc config (hostname urlObj) u)))"

definition metadata_header :: "string \<Rightarrow> string \<Rightarrow> string" where
  "metadata_header sourceUrl now =
     ''---'' @ [LF] @ ''source_url: '' @ sourceUrl @ [LF] @ ''downloaded_at: '' @ now @ [LF]
     @ ''---'' @ [LF, LF]"

text \<open>The result is the error thrown, if any, and the state left behind.\<close>

definition saveMarkdown :: "'fs platform \<Rightarrow> downloader \<Rightarrow> string \<Rightarrow> string \<Rightarrow> string \<Rightarrow> 'fs world \<Rightarrow> js_error option \<times> 'fs world" where
  "saveMarkdown env dl markdown filePath sourceUrl w =
     (if \<not> force dl \<and> fs_pathExists env (fsys w) filePath
      then (None, emit [Console (SkippingExisting filePath)] w)
      else (let content = (if includeMetadata dl
                           then metadata_header sourceUrl (iso_now env (length (trace w))) @ markdown
                           else markdown)
            in case fs_ensureDir env (fsys w) (path_dirname env filePath) of
                 None \<Rightarrow> (Some IoError, w)
               | Some fs1 \<Rightarrow>
                   (case fs_writeFile env fs1 filePath content of
                      None \<Rightarrow> (Some IoError, w\<lparr>fsys := fs1\<rparr>)
                    | Some fs2 \<Rightarrow> (None, emit [Console (Saved filePath)] (w\<lparr>fsys := fs2\<rparr>)))))"

subsection \<open>downloadMarkdown\<close>

text \<open>
  The \<open>try\<close> block first, with the error it throws, then the function with its \<open>catch\<close>,
  which logs a warning and returns.  \<open>content.trim()\<close> is a \<open>TypeError\<close> when the body is
  not a string.
\<close>

definition downloadMarkdown_try :: "'fs platform \<Rightarrow> downloader \<Rightarrow> string \<Rightarrow> string \<Rightarrow> string \<Rightarrow> 'fs world \<Rightarrow> js_error option \<times> 'fs world" where
  "downloadMarkdown_try env dl mdUrl originalUrl siteDir w =
     (let w1 = emit [Http GET_MD mdUrl] w
      in case md_get env mdUrl of
           None \<Rightarrow> (Some HttpError, w1)
         | Some response \<Rightarrow>
             (case data response of
                NonStr t s \<Rightarrow> (Some TypeError, w1)
              | Str content \<Rightarrow>
                  (let contentType = contentType_of response;
                       isActuallyHtml = (starts_as_html (trim content)
                                         \<or> str_includes contentType ''text/html'')
                   in if isActuallyHtml
                      then (let w2 = emit [Console (ReturnedHtml mdUrl)] w1
                            in case cheerio_load env (Str content) of
                                 Some e \<Rightarrow> (Some e, w2)
                               | None \<Rightarrow>
                              (case extractContent env dl (Str content) originalUrl of
                                 Inl e \<Rightarrow> (Some e, w2)
                               | Inr extractedContent \<Rightarrow>
                                   (let markdown = turndown env extractedContent
                                    in case url_parse env originalUrl of
                                         None \<Rightarrow> (Some TypeError, w2)
                                       | Some b \<Rightarrow>
                                           (case getFilePath env originalUrl b siteDir of
                                              Inl e \<Rightarrow> (Some e, w2)
                                            | Inr filePath \<Rightarrow>
                                                saveMarkdown env dl markdown filePath originalUrl w2))))
                      else (case url_parse env originalUrl of
                              None \<Rightarrow> (Some TypeError, w1)
                            | Some b \<Rightarrow>
                                (case getFilePath env originalUrl b siteDir of
                                   Inl e \<Rightarrow> (Some e, w1)
                                 | Inr filePath \<Rightarrow>
                                     saveMarkdown env dl content filePath mdUrl w1)))))"

definition downloadMarkdown :: "'fs platform \<Rightarrow> downloader \<Rightarrow> string \<Rightarrow> string \<Rightarrow> string \<Rightarrow> 'fs world \<Rightarrow> 'fs world" where
  "downloadMarkdown env dl mdUrl originalUrl siteDir w =
     (case downloadMarkdown_try env dl mdUrl originalUrl siteDir w of
        (None, w1) \<Rightarrow> w1
      | (Some e, w1) \<Rightarrow> emit [Console (WarnMarkdownFailed mdUrl)] w1)"

subsection \<open>processPage\<close>

text \<open>
  After the URL is added to the visited set, the first console line indents by
  \<open>'  '.repeat(depth)\<close>, a \<open>RangeError\<close> when the depth is negative.  \<open>cheerio.load\<close> on the
  body of the page may throw.  Both errors leave \<open>processPage\<close> (to the \<open>catch\<close> of the
  loop).
\<close>

definition processPage :: "'fs platform \<Rightarrow> downloader \<Rightarrow> string \<Rightarrow> int \<Rightarrow> url \<Rightarrow> string \<Rightarrow> 'fs world \<Rightarrow> js_error option \<times> 'fs world" where
  "processPage env dl u depth baseUrl siteDir w =
     (if depth < 0
      then (Some RangeError, emit [MarkVisited u] (w\<lparr>visited := insert u (visited w)\<rparr>))
      else
     (let w1 = emit [MarkVisited u, Console (Processing u depth), Delay 500]
                 (w\<lparr>visited := insert u (visited w)\<rparr>)
      in case fetchPage env u w1 of
           (None, w2) \<Rightarrow> (None, w2)
         | (Some response, w2) \<Rightarrow>
            (case cheerio_load env (data response) of
               Some e \<Rightarrow> (Some e, w2)
             | None \<Rightarrow>
             (let w3 = (if number_lt depth (maxDepth dl)
                        then findAndQueueLinks env (data response) u baseUrl depth w2
                        else w2);
                  config = config_for dl (hostname baseUrl)
              in case checkForMarkdownVersion env u w3 of
                   (Inl e, w4) \<Rightarrow> (Some e, w4)
                 | (Inr (Some mdUrl), w4) \<Rightarrow>
                     (None, downloadMarkdown env dl mdUrl u siteDir
                              (emit [Console (FoundMarkdown mdUrl)] w4))
                 | (Inr None, w4) \<Rightarrow>
                     if preferMarkdown config
                     then (None, emit [Console NoMarkdownSkipping] w4)
                     else (let w5 = emit [Console Converting] w4
                           in case extractContent env dl (data response) u of
                                Inl e \<Rightarrow> (Some e, w5)
                              | Inr content \<Rightarrow>
                                  (let markdown = turndown env content
                                   in case getFilePath env u baseUrl siteDir of
                                        Inl e \<Rightarrow> (Some e, w5)
                                      | Inr filePath \<Rightarrow>
                                          saveMarkdown env dl markdown filePath u w5))))))"

subsection \<open>download\<close>

text \<open>
  The \<open>while\<close> loop of \<open>download\<close>: \<open>None\<close> is a loop that never ends.  An error thrown
  by \<open>processPage\<close> is caught and logged.
\<close>

partial_function (option) crawl_loop :: "'fs platform \<Rightarrow> downloader \<Rightarrow> url \<Rightarrow> string \<Rightarrow> 'fs world \<Rightarrow> 'fs world option" where
  "crawl_loop env dl baseUrl siteDir w =
     (case queue w of
        [] \<Rightarrow> Some w
      | (u, depth) # rest \<Rightarrow>
          (let w1 = w\<lparr>queue := rest\<rparr>
           in if u \<in> visited w1 \<or> number_gt depth (maxDepth dl)
              then crawl_loop env dl baseUrl siteDir w1
              else (case processPage env dl u depth baseUrl siteDir w1 of
                      (None, w2) \<Rightarrow> crawl_loop env dl baseUrl siteDir w2
                    | (Some e, w2) \<Rightarrow>
                        crawl_loop env dl baseUrl siteDir
                          (emit [Console (WarnProcessFailed u)] w2))))"

declare crawl_loop.simps [code]

text \<open>
  \<open>download\<close>: the error it throws, if any, and the final state; \<open>None\<close> if it does not
  return.  The trace is that of this run.
\<close>

definition download :: "'fs platform \<Rightarrow> downloader \<Rightarrow> string \<Rightarrow> 'fs world \<Rightarrow> (js_error option \<times> 'fs world) option" where
  "download env dl startUrl w =
     (case url_parse env startUrl of
        None \<Rightarrow> Some (Some TypeError, w)
      | Some baseUrl \<Rightarrow>
          (let siteName = getSiteName (hostname baseUrl);
               siteDir = path_join env (outputDir dl) siteName
           in case fs_ensureDir env (fsys w) siteDir of
                None \<Rightarrow> Some (Some IoError, w)
              | Some fs1 \<Rightarrow>
                  (case crawl_loop env dl baseUrl siteDir
                          \<lparr>visited = {}, queue = [(startUrl, 0)], fsys = fs1,
                           trace = [Console (OutputDirectory siteDir)]\<rparr> of
                     None \<Rightarrow> None
                   | Some w1 \<Rightarrow> Some (None, w1))))"

section \<open>Reading a trace\<close>

text \<open>The URLs marked visited in a trace, in order.\<close>

fun marked :: "event list \<Rightarrow> string list" where
  "marked [] = []"
| "marked (MarkVisited u # es) = u # marked es"
| "marked (e # es) = marked es"

text \<open>
  \<open>only_logs w w'\<close>: from \<open>w\<close> to \<open>w'\<close> the trace grew by events that mark nothing visited,
  and nothing else changed.  \<open>only_files\<close> allows the file system to change as well.
\<close>

definition only_files :: "'fs world \<Rightarrow> 'fs world \<Rightarrow> bool" where
  "only_files w w' =
     (visited w' = visited w \<and> queue w' = queue w
      \<and> (\<exists>es. trace w' = trace w @ es \<and> marked es = []))"

definition only_logs :: "'fs world \<Rightarrow> 'fs world \<Rightarrow> bool" where
  "only_logs w w' = (only_files w w' \<and> fsys w' = fsys w)"

text \<open>
  \<open>page_step dl u d w w'\<close>: what processing the page \<open>u\<close> at depth \<open>d\<close> may change from
  \<open>w\<close> to \<open>w'\<close>.  \<open>u\<close> joins the visited set; links join the back of the frontier, all at
  depth \<open>d + 1\<close> and none unless \<open>d\<close> is below the maximum depth; the trace grows by the
  mark of \<open>u\<close> followed by events that mark nothing.
\<close>

definition page_step :: "downloader \<Rightarrow> string \<Rightarrow> int \<Rightarrow> 'fs world \<Rightarrow> 'fs world \<Rightarrow> bool" where
  "page_step dl u d w w' =
     (visited w' = insert u (visited w)
      \<and> (\<exists>new. queue w' = queue w @ map (\<lambda>link. (link, d + 1)) new
                 \<and> (new = [] \<or> number_lt d (maxDepth dl)))
      \<and> (\<exists>es. trace w' = trace w @ MarkVisited u # es \<and> marked es = []))"

section \<open>An example platform\<close>

text \<open>
  A small platform on which the definitions can be run: URLs of the form
  \<open>https://host/path\<close>, links that are absolute or start with a slash, paths joined with a
  slash, a disk that is a list of files and a list of directories, and a web given by
  tables (the pages with their answers, the \<open>HEAD\<close> and \<open>GET\<close> answers of markdown
  candidates, and the anchors of each document).  The example documents have the form
  \<open><html><body>...</body></html>\<close> with one paragraph; on them \<open>example_extract\<close> is the
  inner HTML of the body and \<open>example_turndown\<close> the text of the paragraph.
\<close>

definition example_parse :: "string \<Rightarrow> url option" where
  "example_parse s =
     (if startsWith s ''https://''
      then (let rest = drop 8 s;
                host = takeWhile (\<lambda>c. c \<notin> set ''/?#'') rest;
                after = dropWhile (\<lambda>c. c \<notin> set ''/?#'') rest;
                path = takeWhile (\<lambda>c. c \<notin> set ''?#'') after;
                p = (if path = [] then ''/'' else path)
            in if host = [] then None
               else Some \<lparr>hostname = host, pathname = p,
                          href = ''https://'' @ host @ p @ dropWhile (\<lambda>c. c \<notin> set ''?#'') after\<rparr>)
      else None)"

definition example_resolve :: "string \<Rightarrow> string \<Rightarrow> url option" where
  "example_resolve h base =
     (if startsWith h ''https://'' then example_parse h
      else if startsWith h ''/''
      then (case example_parse base of
              None \<Rightarrow> None
            | Some b \<Rightarrow> example_parse (''https://'' @ hostname b @ h))
      else None)"

definition example_dirname :: "string \<Rightarrow> string" where
  "example_dirname p =
     (if CHR ''/'' \<in> set p then rev (drop 1 (dropWhile (\<lambda>c. c \<noteq> CHR ''/'') (rev p))) else ''.'')"

definition inner_of :: "string \<Rightarrow> string \<Rightarrow> string \<Rightarrow> string" where
  "inner_of opening closing s =
     (if startsWith s opening \<and> endsWith s closing \<and> length opening + length closing \<le> length s
      then take (length s - length opening - length closing) (drop (length opening) s)
      else s)"

definition example_extract :: "payload \<Rightarrow> site_config \<Rightarrow> string \<Rightarrow> string \<Rightarrow> string" where
  "example_extract doc config host u = inner_of ''<html><body>'' ''</body></html>'' (payload_toString doc)"

definition example_turndown :: "string \<Rightarrow> string" where
  "example_turndown s = inner_of ''<p>'' ''</p>'' s"

record sim_fs =
  files :: "(string \<times> string) list"
  dirs :: "string list"

definition sim_pathExists :: "sim_fs \<Rightarrow> string \<Rightarrow> bool" where
  "sim_pathExists fs p = (map_of (files fs) p \<noteq> None \<or> p \<in> set (dirs fs))"

definition sim_ensureDir :: "sim_fs \<Rightarrow> string \<Rightarrow> sim_fs option" where
  "sim_ensureDir fs d =
     (if map_of (files fs) d \<noteq> None then None else Some (fs\<lparr>dirs := set_add (dirs fs) d\<rparr>))"

definition sim_writeFile :: "sim_fs \<Rightarrow> string \<Rightarrow> string \<Rightarrow> sim_fs option" where
  "sim_writeFile fs p c =
     (if p \<in> set (dirs fs) then None
      else Some (fs\<lparr>files := (p, c) # filter (\<lambda>e. fst e \<noteq> p) (files fs)\<rparr>))"

definition example_platform :: "(string \<times> response) list \<Rightarrow> (string \<times> response) list \<Rightarrow> (string \<times> response) list \<Rightarrow> (string \<times> string list) list \<Rightarrow> sim_fs platform" where
  "example_platform pages heads mds links =
     \<lparr>url_parse = example_parse,
      url_resolve = example_resolve,
      path_join = (\<lambda>a b. a @ ''/'' @ b),
      path_dirname = example_dirname,
      page_get = (\<lambda>u k. map_of pages u),
      head_req = map_of heads,
      range_get = (\<lambda>u. None),
      md_get = map_of mds,
      cheerio_load = (\<lambda>doc. case doc of Str s \<Rightarrow> None | NonStr t s \<Rightarrow> Some TypeError),
      anchors = (\<lambda>doc. case map_of links (payload_toString doc) of None \<Rightarrow> [] | Some hs \<Rightarrow> hs),
      dom_extract = example_extract,
      turndown = example_turndown,
      iso_now = (\<lambda>n. ''2024-01-15T10:30:00.000Z''),
      fs_pathExists = sim_pathExists,
      fs_ensureDir = sim_ensureDir,
      fs_writeFile = sim_writeFile\<rparr>"

definition html_page :: "string \<Rightarrow> response" where
  "html_page body = \<lparr>status = 200, content_type = Some ''text/html; charset=utf-8'', data = Str body\<rparr>"

definition empty_disk :: sim_fs where
  "empty_disk = \<lparr>files = [], dirs = []\<rparr>"

definition fresh_world :: "sim_fs world" where
  "fresh_world = \<lparr>visited = {}, queue = [], fsys = empty_disk, trace = []\<rparr>"

definition example_downloader :: downloader where
  "example_downloader =
     new_DocDownloader
       \<lparr>opt_maxDepth = Some (Finite 2), opt_outputDir = Some ''out'', opt_force = False,
        opt_includeMetadata = False\<rparr>
       Map.empty"

text \<open>
  The requests of a probe none of whose candidates answers: a \<open>HEAD\<close> and a ranged \<open>GET\<close>
  for each.
\<close>

definition probe_events :: "string list \<Rightarrow> event list" where
  "probe_events cs = concat (map (\<lambda>c. [Http HEAD c, Http GET_RANGE c]) cs)"

text \<open>
  A site of three pages without markdown counterparts: the home page links to \<open>/a\<close> and
  \<open>/b\<close>, and \<open>/a\<close> links to \<open>/b\<close> and back to the home page.
\<close>

definition site1 :: "sim_fs platform" where
  "site1 = example_platform
     [(''https://h/'', html_page ''<html><body><p>Home</p></body></html>''),
      (''https://h/a'', html_page ''<html><body><p>A</p></body></html>''),
      (''https://h/b'', html_page ''<html><body><p>B</p></body></html>'')]
     [] []
     [(''<html><body><p>Home</p></body></html>'', [''/a'', ''/b'']),
      (''<html><body><p>A</p></body></html>'', [''/b'', ''/''])]"







text \<open>
  A home page with links to \<open>/changelog\<close>, \<open>/api/v1\<close> and \<open>/a\<close>, and two downloaders
  configured for its host as the README shows: one with a \<open>maxDepth\<close> for the site, one
  with \<open>skipPatterns\<close>.
\<close>

definition site_changelog :: "sim_fs platform" where
  "site_changelog = example_platform
     [(''https://h/'', html_page ''<html><body><p>Docs</p></body></html>'')]
     [] []
     [(''<html><body><p>Docs</p></body></html>'', [''/changelog'', ''/api/v1'', ''/a''])]"

definition downloader_site_depth :: downloader where
  "downloader_site_depth =
     example_downloader\<lparr>siteConfig := [''h'' \<mapsto> default_config\<lparr>site_maxDepth := Some 0\<rparr>]\<rparr>"

definition downloader_site_skips :: downloader where
  "downloader_site_skips =
     example_downloader
       \<lparr>siteConfig := [''h'' \<mapsto> default_config\<lparr>skipPatterns := [''/api/'', ''/changelog'']\<rparr>]\<rparr>"



text \<open>
  A site without end: the page \<open>chain n\<close> is the home page followed by \<open>n\<close> letters x.
  Every page can be fetched but \<open>dead_url\<close>; the document of a page is represented by
  its URL, and links (with absolute URLs) to \<open>dead_url\<close> and to the page one letter
  longer.  \<open>downloader_unbounded\<close> is constructed with the maximum depth \<open>Infinity\<close>.
\<close>

definition chain :: "nat \<Rightarrow> string" where
  "chain n = ''https://h/'' @ replicate n (CHR ''x'')"




section \<open>Frame lemmas\<close>

declare fetchPage_from.simps [simp del]

lemma emit_nil [simp]: "emit [] w = w"
  by (simp add: emit_def)

lemma emit_emit [simp]: "emit es (emit ds w) = emit (ds @ es) w"
  by (simp add: emit_def)

lemma emit_fields [simp]:
  "visited (emit es w) = visited w" "queue (emit es w) = queue w"
  "fsys (emit es w) = fsys w" "trace (emit es w) = trace w @ es"
  by (simp_all add: emit_def)

lemma emit_update [simp]:
  "emit es (w\<lparr>fsys := f\<rparr>) = (emit es w)\<lparr>fsys := f\<rparr>"
  "emit es (w\<lparr>queue := q\<rparr>) = (emit es w)\<lparr>queue := q\<rparr>"
  "emit es (w\<lparr>visited := v\<rparr>) = (emit es w)\<lparr>visited := v\<rparr>"
  by (simp_all add: emit_def)

lemma marked_append [simp]: "marked (xs @ ys) = marked xs @ marked ys"
  by (induction xs rule: marked.induct) simp_all

lemma only_files_refl [simp]: "only_files w w"
  by (simp add: only_files_def)

lemma only_logs_refl [simp]: "only_logs w w"
  by (simp add: only_logs_def)

lemma only_files_trans: "only_files a b \<Longrightarrow> only_files b c \<Longrightarrow> only_files a c"
  by (auto simp: only_files_def)

lemma only_logs_trans: "only_logs a b \<Longrightarrow> only_logs b c \<Longrightarrow> only_logs a c"
  by (auto simp: only_logs_def intro: only_files_trans)

lemma only_logs_emit: "marked es = [] \<Longrightarrow> only_logs w (emit es w)"
  by (simp add: only_logs_def only_files_def)

lemma only_files_emit: "marked es = [] \<Longrightarrow> only_files w w' \<Longrightarrow> only_files w (emit es w')"
  by (auto simp: only_files_def)

lemma only_logs_files: "only_logs w w' \<Longrightarrow> only_files w w'"
  by (simp add: only_logs_def)

lemma only_files_fsys: "only_files w w' \<Longrightarrow> only_files w (w'\<lparr>fsys := f\<rparr>)"
  by (simp add: only_files_def)

text \<open>fetchPage, case by case.\<close>

lemma fetchPage_cases:
  "fetchPage env u w =
     (case page_get env u 1 of
        Some r \<Rightarrow> (Some r, emit [Http (GET_PAGE 1) u] w)
      | None \<Rightarrow>
         (case page_get env u 2 of
            Some r \<Rightarrow> (Some r, emit [Http (GET_PAGE 1) u, Console (WarnAttemptFailed 1 u),
                                   Delay (retryDelay * 1), Http (GET_PAGE 2) u] w)
          | None \<Rightarrow>
             (case page_get env u 3 of
                Some r \<Rightarrow> (Some r, emit [Http (GET_PAGE 1) u, Console (WarnAttemptFailed 1 u),
                                   Delay (retryDelay * 1), Http (GET_PAGE 2) u,
                                   Console (WarnAttemptFailed 2 u), Delay (retryDelay * 2),
                                   Http (GET_PAGE 3) u] w)
              | None \<Rightarrow> (None, emit [Http (GET_PAGE 1) u, Console (WarnAttemptFailed 1 u),
                                   Delay (retryDelay * 1), Http (GET_PAGE 2) u,
                                   Console (WarnAttemptFailed 2 u), Delay (retryDelay * 2),
                                   Http (GET_PAGE 3) u, Console (WarnFetchFailed u 3)] w))))"
proof -
  have three: "fetchPage_from env u 3 x =
      (case page_get env u 3 of
         Some r \<Rightarrow> (Some r, emit [Http (GET_PAGE 3) u] x)
       | None \<Rightarrow> (None, emit [Http (GET_PAGE 3) u, Console (WarnFetchFailed u 3)] x))" for x
    by (subst fetchPage_from.simps) (simp add: maxRetries_def split: option.splits)
  have two: "fetchPage_from env u 2 x =
      (case page_get env u 2 of
         Some r \<Rightarrow> (Some r, emit [Http (GET_PAGE 2) u] x)
       | None \<Rightarrow> fetchPage_from env u 3
           (emit [Http (GET_PAGE 2) u, Console (WarnAttemptFailed 2 u), Delay (retryDelay * 2)] x))" for x
    by (subst fetchPage_from.simps) (simp add: maxRetries_def split: option.splits)
  have one: "fetchPage_from env u 1 x =
      (case page_get env u 1 of
         Some r \<Rightarrow> (Some r, emit [Http (GET_PAGE 1) u] x)
       | None \<Rightarrow> fetchPage_from env u 2
           (emit [Http (GET_PAGE 1) u, Console (WarnAttemptFailed 1 u), Delay (retryDelay * 1)] x))" for x
    by (subst fetchPage_from.simps) (simp add: maxRetries_def numeral_2_eq_2 split: option.splits)
  show ?thesis
    unfolding fetchPage_def one two three by (simp split: option.splits)
qed

lemma fetchPage_only_logs: "only_logs w (snd (fetchPage env u w))"
  unfolding fetchPage_cases by (auto split: option.splits intro!: only_logs_emit)

lemma probe_candidates_only_logs: "only_logs w (snd (probe_candidates env cs w))"
proof (induction cs arbitrary: w)
  case Nil
  show ?case by simp
next
  case (Cons c cs)
  have a: "only_logs w (snd (probe_candidates env cs (emit [Http HEAD c] w)))"
    by (rule only_logs_trans [OF only_logs_emit Cons.IH]) simp
  have b: "only_logs w (snd (probe_candidates env cs (emit [Http HEAD c, Http GET_RANGE c] w)))"
    by (rule only_logs_trans [OF only_logs_emit Cons.IH]) simp
  show ?case
    using a b by (auto simp: Let_def split: option.splits intro!: only_logs_emit)
qed

lemma checkForMarkdownVersion_only_logs:
  "only_logs w (snd (checkForMarkdownVersion env u w))"
  using probe_candidates_only_logs [of w env "possibleMdUrls u"]
  by (auto simp: checkForMarkdownVersion_def split: option.splits prod.splits)

lemma saveMarkdown_only_files: "only_files w (snd (saveMarkdown env dl md p src w))"
  by (auto simp: saveMarkdown_def Let_def only_files_def split: option.splits)

lemma downloadMarkdown_try_only_files:
  "only_files w (snd (downloadMarkdown_try env dl m p dir w))"
proof -
  have s1: "only_files w (snd (saveMarkdown env dl md fp src (emit [Http GET_MD m] w)))" for md fp src
    by (rule only_files_trans [OF only_logs_files [OF only_logs_emit] saveMarkdown_only_files]) simp
  have s2: "only_files w (snd (saveMarkdown env dl md fp src
              (emit [Http GET_MD m, Console (ReturnedHtml m)] w)))" for md fp src
    by (rule only_files_trans [OF only_logs_files [OF only_logs_emit] saveMarkdown_only_files]) simp
  have e1: "only_files w (emit [Http GET_MD m] w)"
    by (rule only_logs_files [OF only_logs_emit]) simp
  have e2: "only_files w (emit [Http GET_MD m, Console (ReturnedHtml m)] w)"
    by (rule only_logs_files [OF only_logs_emit]) simp
  show ?thesis
    using s1 s2 e1 e2
    by (auto simp: downloadMarkdown_try_def Let_def split: option.splits payload.splits sum.splits)
qed

lemma downloadMarkdown_only_files: "only_files w (downloadMarkdown env dl m p dir w)"
  using downloadMarkdown_try_only_files [of w env dl m p dir]
  by (auto simp: downloadMarkdown_def split: prod.splits option.splits intro: only_files_emit)

lemma page_step_files: "page_step dl u d w a \<Longrightarrow> only_files a b \<Longrightarrow> page_step dl u d w b"
  by (auto simp: page_step_def only_files_def)

lemma page_step_logs: "page_step dl u d w a \<Longrightarrow> only_logs a b \<Longrightarrow> page_step dl u d w b"
  by (auto simp: only_logs_def intro: page_step_files)

lemma page_step_queue:
  assumes "page_step dl u d w a" and "number_lt d (maxDepth dl)"
  shows "page_step dl u d w (findAndQueueLinks env doc cur b d a)"
proof -
  from assms(1) obtain new where q: "queue a = queue w @ map (\<lambda>link. (link, d + 1)) new"
    by (auto simp: page_step_def)
  let ?more = "filter (\<lambda>link. link \<notin> visited a) (collect_links env cur b [] (anchors env doc))"
  have "queue (findAndQueueLinks env doc cur b d a)
        = queue w @ map (\<lambda>link. (link, d + 1)) (new @ ?more)"
    by (simp add: findAndQueueLinks_def Let_def q)
  then have "\<exists>n. queue (findAndQueueLinks env doc cur b d a)
        = queue w @ map (\<lambda>link. (link, d + 1)) n \<and> (n = [] \<or> number_lt d (maxDepth dl))"
    using assms(2) by blast
  moreover have "visited (findAndQueueLinks env doc cur b d a) = visited a"
    and "trace (findAndQueueLinks env doc cur b d a) = trace a"
    by (simp_all add: findAndQueueLinks_def Let_def)
  ultimately show ?thesis
    using assms(1) unfolding page_step_def by simp
qed

lemma page_step_start:
  "page_step dl u d w
     (emit [MarkVisited u, Console (Processing u d), Delay 500] (w\<lparr>visited := insert u (visited w)\<rparr>))"
  "page_step dl u d w (emit [MarkVisited u] (w\<lparr>visited := insert u (visited w)\<rparr>))"
  by (simp_all add: page_step_def)

text \<open>
  Once the page is fetched and parsed, what follows link discovery changes only the
  trace and the file system.
\<close>

lemma processPage_after_discovery:
  assumes d: "0 \<le> d"
    and f: "fetchPage env u
              (emit [MarkVisited u, Console (Processing u d), Delay 500]
                 (w\<lparr>visited := insert u (visited w)\<rparr>)) = (Some response, w2)"
    and l: "cheerio_load env (data response) = None"
  shows "only_files
           (if number_lt d (maxDepth dl)
            then findAndQueueLinks env (data response) u b d w2 else w2)
           (snd (processPage env dl u d b dir w))"
proof -
  let ?w3 = "if number_lt d (maxDepth dl)
             then findAndQueueLinks env (data response) u b d w2 else w2"
  obtain c w4 where p: "checkForMarkdownVersion env u ?w3 = (c, w4)"
    by (cases "checkForMarkdownVersion env u ?w3")
  have s4: "only_files ?w3 w4"
    using only_logs_files [OF checkForMarkdownVersion_only_logs, of ?w3 env u] p by simp
  have unfold: "snd (processPage env dl u d b dir w) =
     snd (case c of
         Inl e \<Rightarrow> (Some e, w4)
       | Inr (Some mdUrl) \<Rightarrow>
           (None, downloadMarkdown env dl mdUrl u dir (emit [Console (FoundMarkdown mdUrl)] w4))
       | Inr None \<Rightarrow>
           if preferMarkdown (config_for dl (hostname b))
           then (None, emit [Console NoMarkdownSkipping] w4)
           else (let w5 = emit [Console Converting] w4
                 in case extractContent env dl (data response) u of
                      Inl e \<Rightarrow> (Some e, w5)
                    | Inr content \<Rightarrow>
                        (let markdown = turndown env content
                         in case getFilePath env u b dir of
                              Inl e \<Rightarrow> (Some e, w5)
                            | Inr filePath \<Rightarrow> saveMarkdown env dl markdown filePath u w5)))"
    using d f l p by (simp add: processPage_def Let_def)
  have e: "only_files w4 (emit es w4)" if "marked es = []" for es
    using that by (intro only_logs_files only_logs_emit)
  have dm: "only_files w4 (downloadMarkdown env dl m u dir (emit [Console (FoundMarkdown m)] w4))" for m
    by (rule only_files_trans [OF e downloadMarkdown_only_files]) simp
  have sm: "only_files w4 (snd (saveMarkdown env dl md fp u (emit [Console Converting] w4)))" for md fp
    by (rule only_files_trans [OF e saveMarkdown_only_files]) simp
  have "only_files w4 (snd (processPage env dl u d b dir w))"
    unfolding unfold using dm sm e
    by (auto simp: Let_def split: sum.splits option.splits)
  with s4 show ?thesis by (rule only_files_trans)
qed

lemma processPage_page_step: "page_step dl u d w (snd (processPage env dl u d b dir w))"
proof (cases "d < 0")
  case True
  with page_step_start(2) [of dl u d w] show ?thesis by (simp add: processPage_def)
next
  case nonneg: False
  let ?w1 = "emit [MarkVisited u, Console (Processing u d), Delay 500]
               (w\<lparr>visited := insert u (visited w)\<rparr>)"
  obtain r w2 where f: "fetchPage env u ?w1 = (r, w2)" by (cases "fetchPage env u ?w1")
  have s2: "page_step dl u d w w2"
    using page_step_logs [OF page_step_start(1) fetchPage_only_logs, of dl u d w env u] f by simp
  show ?thesis
  proof (cases r)
    case None
    with f s2 nonneg show ?thesis by (simp add: processPage_def)
  next
    case (Some response)
    show ?thesis
    proof (cases "cheerio_load env (data response)")
      case thrown: (Some e)
      with f Some s2 nonneg show ?thesis by (simp add: processPage_def)
    next
      case None
      let ?w3 = "if number_lt d (maxDepth dl)
                 then findAndQueueLinks env (data response) u b d w2 else w2"
      have s3: "page_step dl u d w ?w3"
        using s2 by (simp add: page_step_queue)
      from nonneg f Some None have "only_files ?w3 (snd (processPage env dl u d b dir w))"
        by (intro processPage_after_discovery) simp_all
      with s3 show ?thesis by (rule page_step_files)
    qed
  qed
qed


section \<open>The loop, with its termination\<close>

text \<open>
  What holds of every result of the loop: a rule of partial correctness, by the fixed
  point induction of \<open>crawl_loop\<close>.
\<close>

lemma crawl_loop_partial:
  assumes run: "crawl_loop env dl b dir w = Some r"
    and stop: "\<And>w. queue w = [] \<Longrightarrow> P w w"
    and skip: "\<And>w u d rest r. queue w = (u, d) # rest \<Longrightarrow> u \<in> visited w \<or> number_gt d (maxDepth dl)
                 \<Longrightarrow> P (w\<lparr>queue := rest\<rparr>) r \<Longrightarrow> P w r"
    and proc: "\<And>w u d rest e w2 r. queue w = (u, d) # rest \<Longrightarrow> u \<notin> visited w
                 \<Longrightarrow> \<not> number_gt d (maxDepth dl)
                 \<Longrightarrow> processPage env dl u d b dir (w\<lparr>queue := rest\<rparr>) = (e, w2)
                 \<Longrightarrow> P (case e of None \<Rightarrow> w2 | Some x \<Rightarrow> emit [Console (WarnProcessFailed u)] w2) r
                 \<Longrightarrow> P w r"
  shows "P w r"
proof -
  have "env' = env \<and> dl' = dl \<and> b' = b \<and> dir' = dir \<longrightarrow> P w r"
    if "crawl_loop env' dl' b' dir' w = Some r" for env' dl' b' dir'
    apply (rule crawl_loop.raw_induct
        [where P = "\<lambda>e' d' b' dir' w r. e' = env \<and> d' = dl \<and> b' = b \<and> dir' = dir \<longrightarrow> P w r",
          OF _ that])
    subgoal premises prems for loop e' d' c' dir' w r
    proof (intro impI)
      assume same: "e' = env \<and> d' = dl \<and> c' = b \<and> dir' = dir"
      show "P w r"
      proof (cases "queue w")
        case Nil
        with prems(2) have "r = w" by simp
        with stop [OF Nil] show ?thesis by simp
      next
        case (Cons x rest)
        obtain u d where x: "x = (u, d)" by (cases x)
        have qw: "queue w = (u, d) # rest" using Cons x by simp
        show ?thesis
        proof (cases "u \<in> visited w \<or> number_gt d (maxDepth dl)")
          case True
          with prems(2) qw same have "loop env dl b dir (w\<lparr>queue := rest\<rparr>) = Some r"
            by (simp add: Let_def)
          from prems(1) [OF this] have "P (w\<lparr>queue := rest\<rparr>) r" by simp
          with qw True show ?thesis by (rule skip)
        next
          case False
          obtain e w2 where pp: "processPage env dl u d b dir (w\<lparr>queue := rest\<rparr>) = (e, w2)"
            by (cases "processPage env dl u d b dir (w\<lparr>queue := rest\<rparr>)")
          let ?w3 = "case e of None \<Rightarrow> w2 | Some x \<Rightarrow> emit [Console (WarnProcessFailed u)] w2"
          from prems(2) qw same False pp have "loop env dl b dir ?w3 = Some r"
            by (auto simp: Let_def split: option.splits)
          from prems(1) [OF this] have "P ?w3 r" by simp
          with False show ?thesis
            by (intro proc [OF qw _ _ pp]) auto
        qed
      qed
    qed
    done
  with run show ?thesis by blast
qed


section \<open>Path derivation\<close>

lemma endsWith_suffix: "endsWith s p \<longleftrightarrow> suffix p s"
proof
  assume "endsWith s p"
  then have "s = take (length s - length p) s @ p"
    by (metis append_take_drop_id endsWith_def)
  then show "suffix p s" by (metis suffixI)
next
  assume "suffix p s"
  then obtain zs where "s = zs @ p" by (auto simp: suffix_def)
  then show "endsWith s p" by (simp add: endsWith_def)
qed

lemma endsWith_slash: "endsWith s ''/'' \<longleftrightarrow> s \<noteq> [] \<and> last s = CHR ''/''"
  by (cases s rule: rev_cases) (simp_all add: endsWith_def)

lemma startsWith_slash: "startsWith s ''/'' \<longleftrightarrow> s \<noteq> [] \<and> hd s = CHR ''/''"
  by (cases s) (simp_all add: startsWith_def)

lemma safePath_spec: "safePath p = derivePath_spec p"
  by (simp add: safePath_def derivePath_spec_def strip_trailing_slash_def strip_leading_slash_def
      endsWith_suffix [symmetric] endsWith_slash startsWith_slash unsafe_chars_def Let_def disj_commute)

lemma safePath_md: "suffix ''.md'' (safePath p)"
proof -
  define f where "f = (\<lambda>c. if c \<in> unsafe_chars then CHR ''_'' else c)"
  have f: "map f ''.md'' = ''.md''"
    by (simp add: f_def unsafe_chars_def)
  have *: "suffix ''.md'' (map f (strip_leading_slash q))" if "suffix ''.md'' q" for q
  proof -
    from that obtain zs where q: "q = zs @ ''.md''" by (auto simp: suffix_def)
    show ?thesis
    proof (cases zs)
      case Nil
      with q f show ?thesis by (simp add: strip_leading_slash_def startsWith_def)
    next
      case (Cons z zs')
      have "strip_leading_slash q = (if z = CHR ''/'' then zs' else zs) @ ''.md''"
        using q Cons by (simp add: strip_leading_slash_def startsWith_def)
      then have "map f (strip_leading_slash q) = map f (if z = CHR ''/'' then zs' else zs) @ ''.md''"
        using f by simp
      then show ?thesis by (metis suffixI)
    qed
  qed
  define r where "r = strip_trailing_slash (if p = ''/'' \<or> p = [] then ''/index'' else p)"
  define q where "q = (if endsWith r ''.md'' then r else r @ ''.md'')"
  have "suffix ''.md'' q"
    by (auto simp: q_def endsWith_suffix intro: suffixI)
  moreover have "safePath p = map f (strip_leading_slash q)"
    by (simp add: safePath_def Let_def f_def q_def r_def)
  ultimately show ?thesis using * by simp
qed

lemma safePath_safe: "set (safePath p) \<inter> unsafe_chars = {}"
  by (auto simp: safePath_def Let_def unsafe_chars_def)

lemma safePath_root: "safePath ''/'' = ''index.md''" "safePath [] = ''index.md''"
  by (simp_all add: safePath_def strip_trailing_slash_def strip_leading_slash_def endsWith_def
      startsWith_def unsafe_chars_def)

section \<open>Substrings\<close>

lemma startsWith_prefix: "startsWith s p \<longleftrightarrow> prefix p s"
  by (metis append_eq_conv_conj prefix_def startsWith_def)

lemma str_includes_sublist: "str_includes s p \<longleftrightarrow> sublist p s"
  by (induction s) (auto simp: startsWith_prefix sublist_Cons_right)

section \<open>Running the example platform\<close>

lemma example_platform_fields:
  "url_parse (example_platform ps hs ms ls) = example_parse"
  "url_resolve (example_platform ps hs ms ls) = example_resolve"
  "path_join (example_platform ps hs ms ls) = (\<lambda>a b. a @ ''/'' @ b)"
  "path_dirname (example_platform ps hs ms ls) = example_dirname"
  "page_get (example_platform ps hs ms ls) = (\<lambda>u k. map_of ps u)"
  "head_req (example_platform ps hs ms ls) = map_of hs"
  "range_get (example_platform ps hs ms ls) = (\<lambda>u. None)"
  "md_get (example_platform ps hs ms ls) = map_of ms"
  "cheerio_load (example_platform ps hs ms ls)
     = (\<lambda>doc. case doc of Str s \<Rightarrow> None | NonStr t s \<Rightarrow> Some TypeError)"
  "dom_extract (example_platform ps hs ms ls) = example_extract"
  "turndown (example_platform ps hs ms ls) = example_turndown"
  "iso_now (example_platform ps hs ms ls) = (\<lambda>n. ''2024-01-15T10:30:00.000Z'')"
  "fs_pathExists (example_platform ps hs ms ls) = sim_pathExists"
  "fs_ensureDir (example_platform ps hs ms ls) = sim_ensureDir"
  "fs_writeFile (example_platform ps hs ms ls) = sim_writeFile"
  by (simp_all add: example_platform_def)

lemma example_platform_anchors:
  "anchors (example_platform ps hs ms ls) (Str d)
     = (case map_of ls d of None \<Rightarrow> [] | Some xs \<Rightarrow> xs)"
  by (simp add: example_platform_def)

lemma probe_all_fail:
  "\<forall>c\<in>set cs. head_req env c = None \<and> range_get env c = None \<Longrightarrow>
   probe_candidates env cs w = (None, emit (probe_events cs) w)"
  by (induction cs arbitrary: w) (simp_all add: probe_events_def)

lemma marked_probe_events [simp]: "marked (probe_events cs) = []"
  by (induction cs) (simp_all add: probe_events_def)

lemma no_heads_probe:
  "checkForMarkdownVersion (example_platform ps [] ms ls) u w =
     (case example_parse u of
        None \<Rightarrow> (Inl TypeError, w)
      | Some x \<Rightarrow> (Inr None, emit (probe_events (possibleMdUrls u)) w))"
  by (simp add: checkForMarkdownVersion_def probe_all_fail example_platform_fields
      split: option.splits)

lemma example_parses:
  "example_parse ''https://h/'' = Some \<lparr>hostname = ''h'', pathname = ''/'', href = ''https://h/''\<rparr>"
  "example_parse ''https://h'' = Some \<lparr>hostname = ''h'', pathname = ''/'', href = ''https://h/''\<rparr>"
  "example_parse ''https://h/a'' = Some \<lparr>hostname = ''h'', pathname = ''/a'', href = ''https://h/a''\<rparr>"
  "example_parse ''https://h/b'' = Some \<lparr>hostname = ''h'', pathname = ''/b'', href = ''https://h/b''\<rparr>"
  by (simp_all add: example_parse_def startsWith_def Let_def)

lemma example_resolves:
  "example_resolve ''/'' ''https://h/a'' = Some \<lparr>hostname = ''h'', pathname = ''/'', href = ''https://h/''\<rparr>"
  "example_resolve ''/a'' ''https://h/'' = Some \<lparr>hostname = ''h'', pathname = ''/a'', href = ''https://h/a''\<rparr>"
  "example_resolve ''/b'' ''https://h/'' = Some \<lparr>hostname = ''h'', pathname = ''/b'', href = ''https://h/b''\<rparr>"
  "example_resolve ''/b'' ''https://h/a'' = Some \<lparr>hostname = ''h'', pathname = ''/b'', href = ''https://h/b''\<rparr>"
  by (simp_all add: example_resolve_def example_parse_def startsWith_def Let_def)

lemma example_skips:
  "\<not> shouldSkipUrl ''https://h/''" "\<not> shouldSkipUrl ''https://h/a''" "\<not> shouldSkipUrl ''https://h/b''"
  by (simp_all add: shouldSkipUrl_def skip_extensions_def skip_substrings_def endsWith_def
      startsWith_def toLowerCase_def lower_char_def)

lemma example_paths:
  "safePath ''/'' = ''index.md''" "safePath ''/a'' = ''a.md''" "safePath ''/b'' = ''b.md''"
  by (simp_all add: safePath_def strip_trailing_slash_def strip_leading_slash_def endsWith_def
      startsWith_def unsafe_chars_def)

lemma example_contents:
  "example_turndown (example_extract (Str ''<html><body><p>Home</p></body></html>'') c h u) = ''Home''"
  "example_turndown (example_extract (Str ''<html><body><p>A</p></body></html>'') c h u) = ''A''"
  "example_turndown (example_extract (Str ''<html><body><p>B</p></body></html>'') c h u) = ''B''"
  by (simp_all add: example_turndown_def example_extract_def inner_of_def startsWith_def endsWith_def)

lemmas run_simps =
  download_def example_platform_fields example_platform_anchors no_heads_probe example_parses
  example_resolves example_skips example_paths example_contents Let_def getSiteName_def
  new_DocDownloader_def sim_ensureDir_def sim_pathExists_def sim_writeFile_def fresh_world_def
  example_dirname_def config_for_def default_config_def extractContent_def getFilePath_def
  saveMarkdown_def findAndQueueLinks_def empty_disk_def set_add_def crawl_loop.simps
  processPage_def fetchPage_cases html_page_def startsWith_def insert_commute

text \<open>
  The run over \<open>site1\<close> from its home page with maximum depth 2: \<open>/b\<close> enters the
  frontier twice (from the home page at depth 1 and from \<open>/a\<close> at depth 2), the home page
  once more from \<open>/a\<close> after it was visited.
\<close>

lemma site1_run:
  "(case download site1 example_downloader ''https://h/'' fresh_world of
      Some (None, w') \<Rightarrow>
        marked (trace w') = [''https://h/'', ''https://h/a'', ''https://h/b'']
        \<and> visited w' = {''https://h/'', ''https://h/a'', ''https://h/b''}
        \<and> queue w' = []
        \<and> files (fsys w')
            = [(''out/h/b.md'', ''B''), (''out/h/a.md'', ''A''), (''out/h/index.md'', ''Home'')]
    | _ \<Rightarrow> False)"
  by (simp add: run_simps site1_def example_downloader_def)

section \<open>download\<close>


lemma download_cases:
  "download env dl s w =
     (case url_parse env s of
        None \<Rightarrow> Some (Some TypeError, w)
      | Some b \<Rightarrow>
          (case fs_ensureDir env (fsys w) (path_join env (outputDir dl) (getSiteName (hostname b))) of
             None \<Rightarrow> Some (Some IoError, w)
           | Some fs1 \<Rightarrow>
               map_option (Pair None)
                 (crawl_loop env dl b (path_join env (outputDir dl) (getSiteName (hostname b)))
                    \<lparr>visited = {}, queue = [(s, 0)], fsys = fs1,
                     trace = [Console (OutputDirectory
                        (path_join env (outputDir dl) (getSiteName (hostname b))))]\<rparr>)))"
  by (simp add: download_def Let_def split: option.splits)

section \<open>The site without end\<close>




lemma chain_inject [simp]: "chain m = chain n \<longleftrightarrow> m = n"
  by (auto simp: chain_def dest: arg_cong [where f = length])


lemma set_chain: "set (chain n) \<subseteq> set ''https:/x''"
  by (auto simp: chain_def)








section \<open>The claims\<close>

text \<open>
  Claim C1 on the code.  The test at dequeue time compares the depth with the
  downloader's own \<open>maxDepth\<close>; the \<open>maxDepth\<close> of the site configuration is never read.
  With the site's \<open>maxDepth\<close> configured as 0 and the downloader's as 2, the run over
  \<open>site1\<close> processes the pages \<open>/a\<close> and \<open>/b\<close>, dequeued at depth 1, and writes their
  files.  (The downloader's own \<open>maxDepth\<close> is the depth supplied, but 3 when 0 is
  supplied.)
\<close>

theorem site_maxDepth_not_read:
  "map_option site_maxDepth (siteConfig downloader_site_depth ''h'') = Some (Some 0)
   \<and> maxDepth downloader_site_depth = Finite 2
   \<and> maxDepth (new_DocDownloader
         \<lparr>opt_maxDepth = Some (Finite 0), opt_outputDir = None, opt_force = False,
          opt_includeMetadata = False\<rparr> Map.empty) = Finite 3
   \<and> (case download site1 downloader_site_depth ''https://h/'' fresh_world of
         Some (None, w') \<Rightarrow>
           marked (trace w') = [''https://h/'', ''https://h/a'', ''https://h/b'']
           \<and> map fst (files (fsys w')) = [''out/h/b.md'', ''out/h/a.md'', ''out/h/index.md'']
       | _ \<Rightarrow> False)"
  by (simp add: run_simps site1_def downloader_site_depth_def example_downloader_def)




text \<open>
  Claim C3 on the code.  \<open>shouldSkipUrl\<close> tests the nine default patterns only; the
  \<open>skipPatterns\<close> of the site configuration are never read.  With \<open>/changelog\<close> among the
  site's \<open>skipPatterns\<close>, link discovery on the home page of \<open>site_changelog\<close> enqueues
  \<open>https://h/changelog\<close>; the link to \<open>/api/v1\<close> is dropped by the default pattern.
\<close>

theorem site_skipPatterns_not_read:
  "map_option skipPatterns (siteConfig downloader_site_skips ''h'') = Some [''/api/'', ''/changelog'']
   \<and> str_includes ''https://h/changelog'' ''/changelog''
   \<and> queue (snd (processPage site_changelog downloader_site_skips ''https://h/'' 0
         \<lparr>hostname = ''h'', pathname = ''/'', href = ''https://h/''\<rparr> ''out/h'' fresh_world))
       = [(''https://h/changelog'', 1), (''https://h/a'', 1)]"
  by (simp add: run_simps site_changelog_def downloader_site_skips_def example_downloader_def
      example_resolve_def example_parse_def shouldSkipUrl_def skip_extensions_def
      skip_substrings_def endsWith_def toLowerCase_def lower_char_def)

text \<open>
  Claim C4, as stated, fails: for a response without a body the code also accepts a
  candidate whose URL ends in \<open>.md\<close>, whatever its content type, unless that is
  \<open>text/html\<close>.  The candidate \<open>https://h/a.md\<close>, answered with status 200 and the
  content type \<open>application/json\<close>, is accepted.
\<close>

theorem head_rule_counterexample:
  "accepts_candidate ''https://h/a.md''
      \<lparr>status = 200, content_type = Some ''application/json'', data = Str []\<rparr>
   \<and> \<not> truthy (data \<lparr>status = 200, content_type = Some ''application/json'', data = Str []\<rparr>)
   \<and> \<not> head_rule_spec \<lparr>status = 200, content_type = Some ''application/json'', data = Str []\<rparr>"
  by (simp add: accepts_candidate_def accepts_headers_only_def head_rule_spec_def contentType_of_def
      toLowerCase_def lower_char_def startsWith_def endsWith_def)

text \<open>
  Claim C4, amended.  A candidate for which the response has no body (a \<open>HEAD\<close> response,
  or an empty one) is accepted if and only if the status is 200 or 206, the lower-cased
  content type does not contain \<open>text/html\<close>, and the content type is blank or contains
  \<open>text/plain\<close>, \<open>markdown\<close> or \<open>application/octet-stream\<close>, or the candidate URL ends in
  \<open>.md\<close>.
\<close>

theorem head_rule_amended:
  assumes "\<not> truthy (data r)"
  shows "accepts_candidate mdUrl r \<longleftrightarrow>
           (status r = 200 \<or> status r = 206)
           \<and> \<not> str_includes (contentType_of r) ''text/html''
           \<and> (contentType_of r = []
                \<or> str_includes (contentType_of r) ''text/plain''
                \<or> str_includes (contentType_of r) ''markdown''
                \<or> str_includes (contentType_of r) ''application/octet-stream''
                \<or> endsWith mdUrl ''.md'')"
proof -
  have "sublist ''markdown'' ''text/markdown''"
    by (rule suffix_imp_sublist) (simp add: suffix_def)
  then have "str_includes t ''text/markdown'' \<Longrightarrow> str_includes t ''markdown''" for t
    unfolding str_includes_sublist by (rule sublist_order.order.trans)
  with assms show ?thesis
    by (auto simp: accepts_candidate_def accepts_headers_only_def Let_def)
qed

theorem head_rule_amended_witness:
  "accepts_candidate ''https://h/a''
      \<lparr>status = 206, content_type = Some ''Text/Plain; charset=utf-8'', data = Str []\<rparr>
   \<and> \<not> accepts_candidate ''https://h/a.md''
      \<lparr>status = 200, content_type = Some ''text/html'', data = Str []\<rparr>"
  using head_rule_amended [of "\<lparr>status = 206, content_type = Some ''Text/Plain; charset=utf-8'', data = Str []\<rparr>" "''https://h/a''"]
    head_rule_amended [of "\<lparr>status = 200, content_type = Some ''text/html'', data = Str []\<rparr>" "''https://h/a.md''"]
  by (simp add: contentType_of_def toLowerCase_def lower_char_def startsWith_def endsWith_def)

text \<open>
  Claim C5.  In a run, the URLs marked visited are pairwise distinct, so no URL is
  processed twice however often it was enqueued, and at the end the visited set holds
  exactly the URLs processed.  Processing a page begins by adding its URL to the visited
  set: the mark is the first event of \<open>processPage\<close>, before the delay and every request.
  The loop never removes a URL from the visited set, and an entry dequeued when its URL is
  visited is dropped without being processed.
\<close>

theorem visited_once:
  "(download env dl startUrl w0 = Some (None, w') \<longrightarrow>
      distinct (marked (trace w')) \<and> set (marked (trace w')) = visited w')
   \<and> (\<exists>es. trace (snd (processPage env dl u d b dir w)) = trace w @ MarkVisited u # es
             \<and> marked es = [])
   \<and> visited (snd (processPage env dl u d b dir w)) = insert u (visited w)
   \<and> (crawl_loop env dl b dir w = Some r \<longrightarrow> visited w \<subseteq> visited r)
   \<and> (queue w = (u, d) # rest \<and> u \<in> visited w \<longrightarrow>
        crawl_loop env dl b dir w = crawl_loop env dl b dir (w\<lparr>queue := rest\<rparr>))"
proof -
  define inv :: "'a world \<Rightarrow> bool" where
    "inv = (\<lambda>x. distinct (marked (trace x)) \<and> set (marked (trace x)) = visited x)"
  have loop: "(inv w \<longrightarrow> inv r) \<and> visited w \<subseteq> visited r"
    if run: "crawl_loop env dl b dir w = Some r" for b dir and w r :: "'a world"
  proof (rule crawl_loop_partial [OF run, where P = "\<lambda>w r. (inv w \<longrightarrow> inv r) \<and> visited w \<subseteq> visited r"])
    fix w :: "'a world"
    show "(inv w \<longrightarrow> inv w) \<and> visited w \<subseteq> visited w" by simp
  next
    fix w r :: "'a world" and u d rest
    assume "(inv (w\<lparr>queue := rest\<rparr>) \<longrightarrow> inv r) \<and> visited (w\<lparr>queue := rest\<rparr>) \<subseteq> visited r"
    then show "(inv w \<longrightarrow> inv r) \<and> visited w \<subseteq> visited r"
      by (simp add: inv_def)
  next
    fix w w2 r :: "'a world" and u d rest and e :: "js_error option"
    let ?w3 = "case e of None \<Rightarrow> w2 | Some x \<Rightarrow> emit [Console (WarnProcessFailed u)] w2"
    assume new: "u \<notin> visited w"
      and pp: "processPage env dl u d b dir (w\<lparr>queue := rest\<rparr>) = (e, w2)"
      and ih: "(inv ?w3 \<longrightarrow> inv r) \<and> visited ?w3 \<subseteq> visited r"
    from processPage_page_step [of dl u d "w\<lparr>queue := rest\<rparr>" env b dir] pp
    obtain es where v2: "visited w2 = insert u (visited w)"
      and t2: "trace w2 = trace w @ MarkVisited u # es" "marked es = []"
      by (auto simp: page_step_def)
    have v3: "visited ?w3 = insert u (visited w)"
      using v2 by (cases e) simp_all
    have m3: "marked (trace ?w3) = marked (trace w) @ [u]"
      using t2 by (cases e) simp_all
    have "inv w \<Longrightarrow> inv ?w3"
      unfolding inv_def v3 m3 using new by auto
    with ih v3 show "(inv w \<longrightarrow> inv r) \<and> visited w \<subseteq> visited r"
      by auto
  qed
  have a: "distinct (marked (trace w')) \<and> set (marked (trace w')) = visited w'"
    if run: "download env dl startUrl w0 = Some (None, w')"
  proof -
    from run obtain b0 fs1 where
      "crawl_loop env dl b0 (path_join env (outputDir dl) (getSiteName (hostname b0)))
         \<lparr>visited = {}, queue = [(startUrl, 0)], fsys = fs1,
          trace = [Console (OutputDirectory
             (path_join env (outputDir dl) (getSiteName (hostname b0))))]\<rparr> = Some w'"
      by (auto simp: download_cases split: option.splits)
    from loop [OF this]
    have "inv w'" by (auto simp: inv_def)
    then show ?thesis by (simp add: inv_def)
  qed
  have b: "\<exists>es. trace (snd (processPage env dl u d b dir w)) = trace w @ MarkVisited u # es
             \<and> marked es = []"
    and c: "visited (snd (processPage env dl u d b dir w)) = insert u (visited w)"
    using processPage_page_step [of dl u d w env b dir] by (auto simp: page_step_def)
  have d: "visited w \<subseteq> visited r" if "crawl_loop env dl b dir w = Some r"
    using loop [OF that] by auto
  have e: "crawl_loop env dl b dir w = crawl_loop env dl b dir (w\<lparr>queue := rest\<rparr>)"
    if "queue w = (u, d) # rest" "u \<in> visited w"
    using that by (subst crawl_loop.simps) (simp add: Let_def)
  show ?thesis
    using a b c d e by blast
qed

theorem visited_once_witness:
  "\<exists>w'. download site1 example_downloader ''https://h/'' fresh_world = Some (None, w')
     \<and> marked (trace w') = [''https://h/'', ''https://h/a'', ''https://h/b'']
     \<and> distinct (marked (trace w'))
     \<and> set (marked (trace w')) = visited w'"
proof -
  from site1_run obtain w' where
    run: "download site1 example_downloader ''https://h/'' fresh_world = Some (None, w')"
    and m: "marked (trace w') = [''https://h/'', ''https://h/a'', ''https://h/b'']"
    by (auto split: option.splits prod.splits)
  from visited_once [where env = site1 and dl = example_downloader and startUrl = "''https://h/''"
      and ?w0.0 = fresh_world and w' = w', THEN conjunct1, THEN mp, OF run] run m
  show ?thesis by blast
qed

text \<open>
  Claim C6.  Path derivation is a function of the URL alone: \<open>getFilePath\<close> reads
  neither the state of the run nor its \<open>baseUrl\<close> argument, only the platform's parse of
  the URL, so the same URL gives the same path at every call.  The path is the site
  directory joined with the relative path that the specification describes step by step
  (\<open>derivePath_spec\<close>), which always ends in \<open>.md\<close> and holds none of the characters
  \<open><>:"|?*\<close>.  The URLs \<open>https://h/\<close> and \<open>https://h\<close>, whose path component the
  platform gives as \<open>/\<close>, both map to \<open>index.md\<close> under the site directory.
\<close>

theorem getFilePath_derivation:
  "getFilePath env u b siteDir
     = (case url_parse env u of
          None \<Rightarrow> Inl TypeError
        | Some urlObj \<Rightarrow> Inr (path_join env siteDir (derivePath_spec (pathname urlObj))))
   \<and> getFilePath env u b siteDir = getFilePath env u b' siteDir
   \<and> suffix ''.md'' (derivePath_spec p)
   \<and> set (derivePath_spec p) \<inter> unsafe_chars = {}
   \<and> (url_parse env (''https://'' @ h @ ''/'') = Some u1 \<and> pathname u1 = ''/''
        \<and> url_parse env (''https://'' @ h) = Some u2 \<and> pathname u2 = ''/''
      \<longrightarrow> getFilePath env (''https://'' @ h @ ''/'') b siteDir
            = Inr (path_join env siteDir ''index.md'')
          \<and> getFilePath env (''https://'' @ h) b siteDir
            = Inr (path_join env siteDir ''index.md''))"
proof -
  have a: "getFilePath env u b siteDir
     = (case url_parse env u of
          None \<Rightarrow> Inl TypeError
        | Some urlObj \<Rightarrow> Inr (path_join env siteDir (derivePath_spec (pathname urlObj))))"
    by (simp add: getFilePath_def safePath_spec split: option.splits)
  have b: "getFilePath env u b siteDir = getFilePath env u b' siteDir"
    by (simp add: getFilePath_def)
  have c: "suffix ''.md'' (derivePath_spec p)"
    using safePath_md [of p] by (simp add: safePath_spec)
  have d: "set (derivePath_spec p) \<inter> unsafe_chars = {}"
    using safePath_safe [of p] by (simp add: safePath_spec)
  have e: "getFilePath env x b siteDir = Inr (path_join env siteDir ''index.md'')"
    if "url_parse env x = Some y" "pathname y = ''/''" for x y
    using that by (simp add: getFilePath_def safePath_root)
  show ?thesis
    using a b c d e by blast
qed

theorem getFilePath_derivation_witness:
  "getFilePath (example_platform [] [] [] []) ''https://h/''
      \<lparr>hostname = ''h'', pathname = ''/'', href = ''https://h/''\<rparr> ''out/h'' = Inr ''out/h/index.md''
   \<and> getFilePath (example_platform [] [] [] []) ''https://h''
      \<lparr>hostname = ''h'', pathname = ''/'', href = ''https://h/''\<rparr> ''out/h'' = Inr ''out/h/index.md''"
proof -
  let ?env = "example_platform [] [] [] []"
  let ?root = "\<lparr>hostname = ''h'', pathname = ''/'', href = ''https://h/''\<rparr>"
  have p1: "url_parse ?env ''https://h/'' = Some ?root"
    and p2: "url_parse ?env ''https://h'' = Some ?root"
    by (simp_all add: example_platform_def example_parse_def startsWith_def Let_def)
  have j: "path_join ?env ''out/h'' ''index.md'' = ''out/h/index.md''"
    by (simp add: example_platform_def)
  note all = getFilePath_derivation [where env = ?env and h = "''h''" and u = "''https://h/''"
        and p = "''/''" and b = ?root and b' = ?root and siteDir = "''out/h''"
        and ?u1.0 = ?root and ?u2.0 = ?root]
  have "getFilePath ?env (''https://'' @ ''h'' @ ''/'') ?root ''out/h''
          = Inr (path_join ?env ''out/h'' ''index.md'')
        \<and> getFilePath ?env (''https://'' @ ''h'') ?root ''out/h''
          = Inr (path_join ?env ''out/h'' ''index.md'')"
    by (rule all [THEN conjunct2, THEN conjunct2, THEN conjunct2, THEN conjunct2, THEN mp])
       (simp add: p1 p2)
  then show ?thesis
    by (simp add: j)
qed

lemma map_of_filter_other:
  "map_of (filter (\<lambda>e. fst e \<noteq> p) xs) q = (if q = p then None else map_of xs q)"
  by (induction xs) auto

text \<open>
  Claim C7.  When force mode is off and something exists at the path, \<open>saveMarkdown\<close>
  returns without an error and without a file system operation: the file system it leaves
  is the one it found, and only the line about the skipped file is logged.  Otherwise it
  ensures the parent directory and then writes the file.  With metadata mode on, the
  content written is the block \<open>---\<close>, \<open>source_url:\<close> with the source, \<open>downloaded_at:\<close>
  with the time, \<open>---\<close> and an empty line, followed by the markdown; with metadata mode
  off it is the markdown alone.  (An operation of the file system that fails is thrown on
  as an error.)  On the disk of the example platform this reads: in the first case every
  file keeps its content; in the second, when both operations succeed, the file at the
  path holds the content and every other file keeps its own.
\<close>

theorem saveMarkdown_contract:
  "(\<not> force dl \<and> fs_pathExists env (fsys w) p \<longrightarrow>
      saveMarkdown env dl md p src w = (None, emit [Console (SkippingExisting p)] w)
      \<and> fsys (snd (saveMarkdown env dl md p src w)) = fsys w)
   \<and> ((force dl \<or> \<not> fs_pathExists env (fsys w) p)
       \<and> fs_ensureDir env (fsys w) (path_dirname env p) = None
       \<longrightarrow> saveMarkdown env dl md p src w = (Some IoError, w))
   \<and> ((force dl \<or> \<not> fs_pathExists env (fsys w) p)
       \<and> fs_ensureDir env (fsys w) (path_dirname env p) = Some fs1
       \<and> includeMetadata dl
       \<longrightarrow> saveMarkdown env dl md p src w
            = (case fs_writeFile env fs1 p
                      (''---'' @ [CHR 0x0A] @ ''source_url: '' @ src @ [CHR 0x0A]
                       @ ''downloaded_at: '' @ iso_now env (length (trace w)) @ [CHR 0x0A]
                       @ ''---'' @ [CHR 0x0A, CHR 0x0A] @ md) of
                 None \<Rightarrow> (Some IoError, w\<lparr>fsys := fs1\<rparr>)
               | Some fs2 \<Rightarrow> (None, emit [Console (Saved p)] (w\<lparr>fsys := fs2\<rparr>))))
   \<and> ((force dl \<or> \<not> fs_pathExists env (fsys w) p)
       \<and> fs_ensureDir env (fsys w) (path_dirname env p) = Some fs1
       \<and> \<not> includeMetadata dl
       \<longrightarrow> saveMarkdown env dl md p src w
            = (case fs_writeFile env fs1 p md of
                 None \<Rightarrow> (Some IoError, w\<lparr>fsys := fs1\<rparr>)
               | Some fs2 \<Rightarrow> (None, emit [Console (Saved p)] (w\<lparr>fsys := fs2\<rparr>))))
   \<and> (\<not> force dl \<and> sim_pathExists (fsys v) p \<longrightarrow>
        fst (saveMarkdown (example_platform ps hs ms ls) dl md p src v) = None
        \<and> map_of (files (fsys (snd (saveMarkdown (example_platform ps hs ms ls) dl md p src v)))) q
            = map_of (files (fsys v)) q)
   \<and> ((force dl \<or> \<not> sim_pathExists (fsys v) p)
       \<and> fst (saveMarkdown (example_platform ps hs ms ls) dl md p src v) = None \<longrightarrow>
        map_of (files (fsys (snd (saveMarkdown (example_platform ps hs ms ls) dl md p src v)))) q
          = (if q = p
             then Some ((if includeMetadata dl
                         then ''---'' @ [CHR 0x0A] @ ''source_url: '' @ src @ [CHR 0x0A]
                              @ ''downloaded_at: 2024-01-15T10:30:00.000Z'' @ [CHR 0x0A]
                              @ ''---'' @ [CHR 0x0A, CHR 0x0A]
                         else []) @ md)
             else map_of (files (fsys v)) q))"
proof -
  let ?ex = "example_platform ps hs ms ls"
  have a: "saveMarkdown env dl md p src w = (None, emit [Console (SkippingExisting p)] w)
      \<and> fsys (snd (saveMarkdown env dl md p src w)) = fsys w"
    if "\<not> force dl" "fs_pathExists env (fsys w) p"
    using that by (simp add: saveMarkdown_def)
  have b: "saveMarkdown env dl md p src w = (Some IoError, w)"
    if "force dl \<or> \<not> fs_pathExists env (fsys w) p"
      "fs_ensureDir env (fsys w) (path_dirname env p) = None"
    using that by (auto simp: saveMarkdown_def Let_def)
  have c: "saveMarkdown env dl md p src w
            = (case fs_writeFile env fs1 p
                      (''---'' @ [CHR 0x0A] @ ''source_url: '' @ src @ [CHR 0x0A]
                       @ ''downloaded_at: '' @ iso_now env (length (trace w)) @ [CHR 0x0A]
                       @ ''---'' @ [CHR 0x0A, CHR 0x0A] @ md) of
                 None \<Rightarrow> (Some IoError, w\<lparr>fsys := fs1\<rparr>)
               | Some fs2 \<Rightarrow> (None, emit [Console (Saved p)] (w\<lparr>fsys := fs2\<rparr>)))"
    if "force dl \<or> \<not> fs_pathExists env (fsys w) p"
      "fs_ensureDir env (fsys w) (path_dirname env p) = Some fs1" "includeMetadata dl"
    using that by (auto simp: saveMarkdown_def Let_def metadata_header_def LF_def)
  have d: "saveMarkdown env dl md p src w
            = (case fs_writeFile env fs1 p md of
                 None \<Rightarrow> (Some IoError, w\<lparr>fsys := fs1\<rparr>)
               | Some fs2 \<Rightarrow> (None, emit [Console (Saved p)] (w\<lparr>fsys := fs2\<rparr>)))"
    if "force dl \<or> \<not> fs_pathExists env (fsys w) p"
      "fs_ensureDir env (fsys w) (path_dirname env p) = Some fs1" "\<not> includeMetadata dl"
    using that by (auto simp: saveMarkdown_def Let_def)
  have e: "fst (saveMarkdown ?ex dl md p src v) = None
        \<and> map_of (files (fsys (snd (saveMarkdown ?ex dl md p src v)))) q = map_of (files (fsys v)) q"
    if "\<not> force dl" "sim_pathExists (fsys v) p"
    using that by (simp add: saveMarkdown_def example_platform_fields)
  have f: "map_of (files (fsys (snd (saveMarkdown ?ex dl md p src v)))) q
          = (if q = p
             then Some ((if includeMetadata dl
                         then ''---'' @ [CHR 0x0A] @ ''source_url: '' @ src @ [CHR 0x0A]
                              @ ''downloaded_at: 2024-01-15T10:30:00.000Z'' @ [CHR 0x0A]
                              @ ''---'' @ [CHR 0x0A, CHR 0x0A]
                         else []) @ md)
             else map_of (files (fsys v)) q)"
    if "force dl \<or> \<not> sim_pathExists (fsys v) p" "fst (saveMarkdown ?ex dl md p src v) = None"
    using that
    by (auto simp: saveMarkdown_def Let_def example_platform_fields sim_ensureDir_def
        sim_writeFile_def map_of_filter_other metadata_header_def LF_def
        split: option.splits if_splits)
  show ?thesis
    using a b c d e f by blast
qed

theorem saveMarkdown_contract_witness:
  "saveMarkdown (example_platform [] [] [] []) example_downloader ''# New'' ''out/h/a.md''
       ''https://h/a''
       (fresh_world\<lparr>fsys := \<lparr>files = [(''out/h/a.md'', ''# Old'')], dirs = [''out/h'']\<rparr>\<rparr>)
     = (None, emit [Console (SkippingExisting ''out/h/a.md'')]
               (fresh_world\<lparr>fsys := \<lparr>files = [(''out/h/a.md'', ''# Old'')], dirs = [''out/h'']\<rparr>\<rparr>))
   \<and> saveMarkdown (example_platform [] [] [] []) (example_downloader\<lparr>includeMetadata := True\<rparr>)
       ''# New'' ''out/h/b.md'' ''https://h/b''
       (fresh_world\<lparr>fsys := \<lparr>files = [(''out/h/a.md'', ''# Old'')], dirs = [''out/h'']\<rparr>\<rparr>)
     = (None, emit [Console (Saved ''out/h/b.md'')]
               (fresh_world\<lparr>fsys :=
                  \<lparr>files = [(''out/h/b.md'',
                              ''---'' @ [CHR 0x0A] @ ''source_url: https://h/b'' @ [CHR 0x0A]
                              @ ''downloaded_at: 2024-01-15T10:30:00.000Z'' @ [CHR 0x0A]
                              @ ''---'' @ [CHR 0x0A, CHR 0x0A] @ ''# New''),
                             (''out/h/a.md'', ''# Old'')],
                   dirs = [''out/h'']\<rparr>\<rparr>))
   \<and> saveMarkdown (example_platform [] [] [] []) example_downloader
       ''# New'' ''out/h/b.md'' ''https://h/b''
       (fresh_world\<lparr>fsys := \<lparr>files = [(''out/h/a.md'', ''# Old'')], dirs = [''out/h'']\<rparr>\<rparr>)
     = (None, emit [Console (Saved ''out/h/b.md'')]
               (fresh_world\<lparr>fsys :=
                  \<lparr>files = [(''out/h/b.md'', ''# New''), (''out/h/a.md'', ''# Old'')],
                   dirs = [''out/h'']\<rparr>\<rparr>))"
proof -
  let ?env = "example_platform [] [] [] [] :: sim_fs platform"
  let ?disk = "\<lparr>files = [(''out/h/a.md'', ''# Old'')], dirs = [''out/h'']\<rparr>"
  let ?w = "fresh_world\<lparr>fsys := ?disk\<rparr>"
  let ?meta = "example_downloader\<lparr>includeMetadata := True\<rparr>"
  have skip: "saveMarkdown ?env example_downloader ''# New'' ''out/h/a.md'' ''https://h/a'' ?w
      = (None, emit [Console (SkippingExisting ''out/h/a.md'')] ?w)
      \<and> fsys (snd (saveMarkdown ?env example_downloader ''# New'' ''out/h/a.md'' ''https://h/a'' ?w))
        = fsys ?w"
    by (rule saveMarkdown_contract [THEN conjunct1, THEN mp])
       (simp add: example_platform_fields example_downloader_def new_DocDownloader_def
          sim_pathExists_def fresh_world_def)
  have "saveMarkdown ?env ?meta ''# New'' ''out/h/b.md'' ''https://h/b'' ?w
      = (case fs_writeFile ?env ?disk ''out/h/b.md''
                (''---'' @ [CHR 0x0A] @ ''source_url: '' @ ''https://h/b'' @ [CHR 0x0A]
                 @ ''downloaded_at: '' @ iso_now ?env (length (trace ?w)) @ [CHR 0x0A]
                 @ ''---'' @ [CHR 0x0A, CHR 0x0A] @ ''# New'') of
           None \<Rightarrow> (Some IoError, ?w\<lparr>fsys := ?disk\<rparr>)
         | Some fs2 \<Rightarrow> (None, emit [Console (Saved ''out/h/b.md'')] (?w\<lparr>fsys := fs2\<rparr>)))"
    by (rule saveMarkdown_contract [THEN conjunct2, THEN conjunct2, THEN conjunct1, THEN mp])
       (simp add: example_platform_fields example_downloader_def new_DocDownloader_def
          sim_pathExists_def sim_ensureDir_def fresh_world_def example_dirname_def set_add_def)
  then have on: "saveMarkdown ?env ?meta ''# New'' ''out/h/b.md'' ''https://h/b'' ?w
      = (None, emit [Console (Saved ''out/h/b.md'')]
               (fresh_world\<lparr>fsys :=
                  \<lparr>files = [(''out/h/b.md'',
                              ''---'' @ [CHR 0x0A] @ ''source_url: https://h/b'' @ [CHR 0x0A]
                              @ ''downloaded_at: 2024-01-15T10:30:00.000Z'' @ [CHR 0x0A]
                              @ ''---'' @ [CHR 0x0A, CHR 0x0A] @ ''# New''),
                             (''out/h/a.md'', ''# Old'')],
                   dirs = [''out/h'']\<rparr>\<rparr>))"
    by (simp add: example_platform_fields sim_writeFile_def fresh_world_def)
  have "saveMarkdown ?env example_downloader ''# New'' ''out/h/b.md'' ''https://h/b'' ?w
      = (case fs_writeFile ?env ?disk ''out/h/b.md'' ''# New'' of
           None \<Rightarrow> (Some IoError, ?w\<lparr>fsys := ?disk\<rparr>)
         | Some fs2 \<Rightarrow> (None, emit [Console (Saved ''out/h/b.md'')] (?w\<lparr>fsys := fs2\<rparr>)))"
    by (rule saveMarkdown_contract [THEN conjunct2, THEN conjunct2, THEN conjunct2, THEN conjunct1,
          THEN mp])
       (simp add: example_platform_fields example_downloader_def new_DocDownloader_def
          sim_pathExists_def sim_ensureDir_def fresh_world_def example_dirname_def set_add_def)
  then have off: "saveMarkdown ?env example_downloader ''# New'' ''out/h/b.md'' ''https://h/b'' ?w
      = (None, emit [Console (Saved ''out/h/b.md'')]
               (fresh_world\<lparr>fsys :=
                  \<lparr>files = [(''out/h/b.md'', ''# New''), (''out/h/a.md'', ''# Old'')],
                   dirs = [''out/h'']\<rparr>\<rparr>))"
    by (simp add: example_platform_fields sim_writeFile_def fresh_world_def)
  from skip on off show ?thesis by simp
qed









end
